theory Spec2Isabelle
  imports Main
begin

section \<open>The public API: \<^verbatim>\<open>snakemake/api.py\<close>\<close>

text \<open>
  The module is a thin layer of three dataclasses (\<^verbatim>\<open>SnakemakeApi\<close>, \<^verbatim>\<open>WorkflowApi\<close>,
  \<^verbatim>\<open>DAGApi\<close>) over the workflow engine. Every \<^verbatim>\<open>raise ApiError(...)\<close> of the module
  is a value \<open>Inl (ApiError site)\<close> of the model, where \<open>site\<close> names the message of the
  raise. A method that mutates its object returns the result together with the object
  after the call, so the mutations made before a raise stay visible, as in Python.
  Calls that leave the module (the logger, the working directory handler, the shell, the
  workflow object) are appended to a list of calls in the order the code makes them.
\<close>

type_synonym path = string

datatype api_message =
    No_Snakefile_found
  | Only_within_with_statement
  | Snakefile_not_found path
  | Immediate_submit_needs_notemp
  | Cores_have_to_be_specified
  | Debug_with_multi_core
  | Nodes_have_to_be_specified
  | Notebook_edit_needs_local
  | Debug_with_non_local

datatype error =
    ApiError api_message
  | InvalidPluginException string

subsection \<open>\<^verbatim>\<open>resolve_snakefile\<close>\<close>

text \<open>
  \<^verbatim>\<open>SNAKEFILE_CHOICES\<close> is imported from \<^verbatim>\<open>snakemake.common\<close> and \<^verbatim>\<open>Path.exists\<close> asks the
  file system: both are parameters. The \<^verbatim>\<open>for\<close> loop returns at the first existing path and
  the \<^verbatim>\<open>raise\<close> after the loop is the empty-list equation.
\<close>

fun try_choices :: "(path \<Rightarrow> bool) \<Rightarrow> path list \<Rightarrow> error + path" where
  "try_choices ex [] = Inl (ApiError No_Snakefile_found)"
| "try_choices ex (p # ps) = (if ex p then Inr p else try_choices ex ps)"

definition resolve_snakefile ::
  "path list \<Rightarrow> (path \<Rightarrow> bool) \<Rightarrow> path option \<Rightarrow> error + path" where
  "resolve_snakefile SNAKEFILE_CHOICES ex p =
     (case p of
        None \<Rightarrow> try_choices ex SNAKEFILE_CHOICES
      | Some q \<Rightarrow> Inr q)"

subsection \<open>Settings objects\<close>

text \<open>
  The settings classes live in \<^verbatim>\<open>snakemake.settings\<close>; the records hold the fields that
  \<^verbatim>\<open>api.py\<close> reads or writes. \<^verbatim>\<open>ConfigSettings\<close>, \<^verbatim>\<open>WorkflowSettings\<close>,
  \<^verbatim>\<open>SchedulingSettings\<close>, \<^verbatim>\<open>GroupSettings\<close>, \<^verbatim>\<open>DAGSettings\<close> and
  \<^verbatim>\<open>DeploymentSettings\<close> are only stored and handed on, and are left out.
\<close>

datatype DefaultResources = DefaultResources string

record ResourceSettings =
  cores :: "int option"
  nodes :: "int option"
  default_resources :: "DefaultResources option"

record StorageSettings =
  notemp :: bool
  assume_shared_fs :: bool

record ExecutionSettings =
  debug :: bool
  edit_notebook :: "string option"
  use_threads :: bool

record RemoteExecutionSettings =
  immediate_submit :: bool

record OutputSettings =
  keep_logger :: bool

subsection \<open>Executor plugins\<close>

text \<open>
  Of a plugin the module reads \<^verbatim>\<open>common_settings\<close> only, and of these the four fields
  below.
\<close>

record CommonSettings =
  local_exec :: bool
  dryrun_exec :: bool
  touch_exec :: bool
  implies_no_shared_fs :: bool

record ExecutorPlugin =
  plugin_module :: string
  common_settings :: CommonSettings

subsection \<open>Calls that leave the module\<close>

text \<open>
  \<open>Setup_logger stdout dryrun\<close> is a call of \<^verbatim>\<open>setup_logger\<close> with these two arguments (the
  others are fields of the output settings and the execution mode);
  \<open>Workflow_execute p\<close> is the call \<^verbatim>\<open>workflow.execute(executor_plugin=p, ...)\<close>.
\<close>

datatype call =
    Setup_logger bool bool
  | Logger_cleanup
  | Logger_setup_logfile
  | Shell_cleanup
  | Workdir_change_to "path option"
  | Workdir_change_back
  | Workflow_workdir_change_back
  | Workflow_execute ExecutorPlugin

subsection \<open>The objects\<close>

text \<open>
  \<open>Workflow\<close> stands for the object of \<^verbatim>\<open>snakemake.workflow.Workflow\<close> that
  \<^verbatim>\<open>WorkflowApi._workflow_store\<close> caches: whether its \<^verbatim>\<open>_workdir_handler\<close> is set, and the
  two settings objects that \<^verbatim>\<open>execute_workflow\<close> assigns to it.
\<close>

record Workflow =
  has_workdir_handler :: bool
  execution_settings :: "ExecutionSettings option"
  remote_execution_settings :: "RemoteExecutionSettings option"

record WorkflowApi =
  snakefile :: path
  workdir :: "path option"
  resource_settings :: ResourceSettings
  storage_settings :: StorageSettings
  workflow_store :: "Workflow option"

record SnakemakeApi =
  output_settings :: OutputSettings
  workflow_api :: "WorkflowApi option"
  is_in_context :: bool
  calls :: "call list"

text \<open>
  \<^verbatim>\<open>SnakemakeApi(output_settings)\<close>: the two fields with \<^verbatim>\<open>init=False\<close> take their
  defaults.
\<close>

definition new_SnakemakeApi :: "OutputSettings \<Rightarrow> SnakemakeApi" where
  "new_SnakemakeApi os =
     \<lparr>output_settings = os, workflow_api = None, is_in_context = False, calls = []\<rparr>"

definition call_out :: "call \<Rightarrow> SnakemakeApi \<Rightarrow> SnakemakeApi" where
  "call_out c s = s\<lparr>calls := calls s @ [c]\<rparr>"

subsection \<open>\<^verbatim>\<open>SnakemakeApi\<close>\<close>

definition setup_logger :: "bool \<Rightarrow> bool \<Rightarrow> SnakemakeApi \<Rightarrow> SnakemakeApi" where
  "setup_logger stdout dryrun s =
     (if \<not> keep_logger (output_settings s) then call_out (Setup_logger stdout dryrun) s
      else s)"

definition check_is_in_context :: "SnakemakeApi \<Rightarrow> error + unit" where
  "check_is_in_context s =
     (if \<not> is_in_context s then Inl (ApiError Only_within_with_statement) else Inr ())"

text \<open>
  \<^verbatim>\<open>WorkflowApi.__post_init__\<close>: \<^verbatim>\<open>_check\<close> first (through \<^verbatim>\<open>ApiBase.__post_init__\<close>), then
  the snakefile is made absolute and the working directory handler changes directory.
  \<^verbatim>\<open>Path.absolute\<close> is a parameter.
\<close>

definition WorkflowApi_check :: "(path \<Rightarrow> bool) \<Rightarrow> path \<Rightarrow> error + unit" where
  "WorkflowApi_check ex sf =
     (if \<not> ex sf then Inl (ApiError (Snakefile_not_found sf)) else Inr ())"

definition new_WorkflowApi ::
  "(path \<Rightarrow> bool) \<Rightarrow> (path \<Rightarrow> path) \<Rightarrow> path \<Rightarrow> path option \<Rightarrow> ResourceSettings \<Rightarrow>
   StorageSettings \<Rightarrow> SnakemakeApi \<Rightarrow> (error + WorkflowApi) \<times> SnakemakeApi" where
  "new_WorkflowApi ex absolute sf wd rs ss s =
     (case WorkflowApi_check ex sf of
        Inl e \<Rightarrow> (Inl e, s)
      | Inr _ \<Rightarrow>
          (Inr \<lparr>snakefile = absolute sf, workdir = wd, resource_settings = rs,
                storage_settings = ss, workflow_store = None\<rparr>,
           call_out (Workdir_change_to wd) s))"

text \<open>
  \<^verbatim>\<open>SnakemakeApi.workflow\<close>. \<open>default_storage\<close> is what \<^verbatim>\<open>StorageSettings()\<close> builds.
\<close>

definition workflow ::
  "path list \<Rightarrow> (path \<Rightarrow> bool) \<Rightarrow> (path \<Rightarrow> path) \<Rightarrow> StorageSettings \<Rightarrow>
   ResourceSettings \<Rightarrow> StorageSettings option \<Rightarrow> path option \<Rightarrow> path option \<Rightarrow>
   SnakemakeApi \<Rightarrow> (error + WorkflowApi) \<times> SnakemakeApi" where
  "workflow SNAKEFILE_CHOICES ex absolute default_storage rs ss_opt sf_opt wd s =
     (let ss = (case ss_opt of None \<Rightarrow> default_storage | Some x \<Rightarrow> x) in
      case check_is_in_context s of
        Inl e \<Rightarrow> (Inl e, s)
      | Inr _ \<Rightarrow>
          (let s1 = setup_logger False False s in
           case resolve_snakefile SNAKEFILE_CHOICES ex sf_opt of
             Inl e \<Rightarrow> (Inl e, s1)
           | Inr sf \<Rightarrow>
               (case new_WorkflowApi ex absolute sf wd rs ss s1 of
                  (Inl e, s2) \<Rightarrow> (Inl e, s2)
                | (Inr w, s2) \<Rightarrow> (Inr w, s2\<lparr>workflow_api := Some w\<rparr>))))"

definition cleanup :: "SnakemakeApi \<Rightarrow> SnakemakeApi" where
  "cleanup s =
     (let s1 = (if \<not> keep_logger (output_settings s) then call_out Logger_cleanup s else s) in
      case workflow_api s1 of
        None \<Rightarrow> s1
      | Some w \<Rightarrow>
          (let s2 = call_out Workdir_change_back s1 in
           case workflow_store w of
             None \<Rightarrow> s2
           | Some wflow \<Rightarrow>
               (if has_workdir_handler wflow then call_out Workflow_workdir_change_back s2
                else s2)))"

definition enter :: "SnakemakeApi \<Rightarrow> SnakemakeApi" where
  "enter s = s\<lparr>is_in_context := True\<rparr>"

definition exit_ctx :: "SnakemakeApi \<Rightarrow> SnakemakeApi" where
  "exit_ctx s = cleanup (s\<lparr>is_in_context := False\<rparr>)"

subsection \<open>The registry of executor plugins\<close>

text \<open>
  \<^verbatim>\<open>ExecutorPluginRegistry\<close> belongs to the package
  \<^verbatim>\<open>snakemake_interface_executor_plugins\<close>: a dictionary from plugin names to plugins.
  \<^verbatim>\<open>register_plugin\<close> adds a plugin under a name and does nothing when the name is
  registered already; \<^verbatim>\<open>get_plugin\<close> reads the dictionary and raises
  \<^verbatim>\<open>InvalidPluginException\<close> for a name it does not hold. The registry is one object for
  the whole process: what it holds when \<^verbatim>\<open>_get_executor_plugin_registry\<close> is called (the
  plugins found installed, and what earlier calls registered) is the parameter
  \<open>installed\<close>. The three executor modules of \<^verbatim>\<open>snakemake.executors\<close> are parameters.
\<close>

type_synonym ExecutorPluginRegistry = "string \<rightharpoonup> ExecutorPlugin"

definition register_plugin ::
  "string \<Rightarrow> ExecutorPlugin \<Rightarrow> ExecutorPluginRegistry \<Rightarrow> ExecutorPluginRegistry" where
  "register_plugin n p reg = (case reg n of None \<Rightarrow> reg(n \<mapsto> p) | Some _ \<Rightarrow> reg)"

definition get_plugin :: "ExecutorPluginRegistry \<Rightarrow> string \<Rightarrow> error + ExecutorPlugin" where
  "get_plugin reg n = (case reg n of None \<Rightarrow> Inl (InvalidPluginException n) | Some p \<Rightarrow> Inr p)"

text \<open>
  What \<^verbatim>\<open>execute_workflow\<close> takes from outside the module: the registry's initial content,
  the three executor modules, \<^verbatim>\<open>os.name\<close>, the objects that \<^verbatim>\<open>ExecutionSettings()\<close> and
  \<^verbatim>\<open>RemoteExecutionSettings()\<close> build, and the outcome of building the workflow object
  (\<^verbatim>\<open>_get_workflow\<close>, \<^verbatim>\<open>include\<close>, \<^verbatim>\<open>check\<close>) where \<^verbatim>\<open>_workflow_store\<close> is still
  empty.
\<close>

record outside =
  installed :: ExecutorPluginRegistry
  local_executor :: ExecutorPlugin
  dryrun_executor :: ExecutorPlugin
  touch_executor :: ExecutorPlugin
  os_name :: string
  default_ExecutionSettings :: ExecutionSettings
  default_RemoteExecutionSettings :: RemoteExecutionSettings
  built_workflow :: "error + Workflow"

definition get_executor_plugin_registry :: "outside \<Rightarrow> ExecutorPluginRegistry" where
  "get_executor_plugin_registry out =
     register_plugin ''touch'' (touch_executor out)
       (register_plugin ''dryrun'' (dryrun_executor out)
          (register_plugin ''local'' (local_executor out) (installed out)))"

subsection \<open>\<^verbatim>\<open>WorkflowApi\<close> and \<^verbatim>\<open>DAGApi\<close>\<close>

text \<open>The property \<^verbatim>\<open>WorkflowApi._workflow\<close>: build the workflow once, then return the cached one.\<close>

definition workflow_property ::
  "outside \<Rightarrow> WorkflowApi \<Rightarrow> (error + Workflow) \<times> WorkflowApi" where
  "workflow_property out w =
     (case workflow_store w of
        None \<Rightarrow>
          (case built_workflow out of
             Inl e \<Rightarrow> (Inl e, w)
           | Inr wflow \<Rightarrow> (Inr wflow, w\<lparr>workflow_store := Some wflow\<rparr>))
      | Some wflow \<Rightarrow> (Inr wflow, w))"

text \<open>
  A \<^verbatim>\<open>DAGApi\<close> refers to its \<^verbatim>\<open>SnakemakeApi\<close> and to its \<^verbatim>\<open>WorkflowApi\<close>, and the
  \<^verbatim>\<open>SnakemakeApi\<close> refers in \<^verbatim>\<open>_workflow_api\<close> to the \<^verbatim>\<open>WorkflowApi\<close> that its last call
  of \<^verbatim>\<open>workflow\<close> made. \<open>dag_held\<close> says whether these are the same object (they are,
  unless \<^verbatim>\<open>workflow\<close> has been called again since). The record holds both objects as
  they are after a call; what a method writes to the \<^verbatim>\<open>WorkflowApi\<close> is written through
  \<open>put_workflow_api\<close>, which updates the field of the \<^verbatim>\<open>SnakemakeApi\<close> too when the
  object is shared.
\<close>

record DAGApi =
  dag_snakemake_api :: SnakemakeApi
  dag_workflow_api :: WorkflowApi
  dag_held :: bool

definition put_workflow_api :: "bool \<Rightarrow> SnakemakeApi \<Rightarrow> WorkflowApi \<Rightarrow> DAGApi" where
  "put_workflow_api held s w =
     \<lparr>dag_snakemake_api = (if held then s\<lparr>workflow_api := Some w\<rparr> else s),
      dag_workflow_api = w,
      dag_held = held\<rparr>"

text \<open>
  \<^verbatim>\<open>WorkflowApi.dag\<close> with \<^verbatim>\<open>DAGApi.__post_init__\<close>, which reads \<^verbatim>\<open>_workflow\<close> and so
  builds the workflow object. \<open>held\<close> says whether the \<^verbatim>\<open>SnakemakeApi\<close> holds this
  \<^verbatim>\<open>WorkflowApi\<close>. When building the workflow fails, the exception leaves the method and
  no \<^verbatim>\<open>DAGApi\<close> is made.
\<close>

definition dag :: "outside \<Rightarrow> bool \<Rightarrow> SnakemakeApi \<Rightarrow> WorkflowApi \<Rightarrow> error + DAGApi" where
  "dag out held s w =
     (case workflow_property out w of
        (Inl e, _) \<Rightarrow> Inl e
      | (Inr _, w1) \<Rightarrow> Inr (put_workflow_api held s w1))"

text \<open>
  Lines 395 to 436 of \<^verbatim>\<open>execute_workflow\<close>: the checks that depend on the kind of
  executor. The result holds the resource settings and the \<^verbatim>\<open>SnakemakeApi\<close> after the
  checks (\<^verbatim>\<open>cores\<close> and \<^verbatim>\<open>default_resources\<close> may have been set, \<^verbatim>\<open>shell.cleanup\<close> called).
  In the branch of a dry-run or touch executor \<open>c\<close> is the value of \<^verbatim>\<open>cores\<close> after the
  assignment \<^verbatim>\<open>cores = 1\<close> that an unset \<^verbatim>\<open>cores\<close> gets.
\<close>

definition check_executor_settings ::
  "CommonSettings \<Rightarrow> ExecutionSettings \<Rightarrow> ResourceSettings \<Rightarrow> SnakemakeApi \<Rightarrow>
   (error + unit) \<times> ResourceSettings \<times> SnakemakeApi" where
  "check_executor_settings cs es rs s =
     (if local_exec cs then
        (if \<not> dryrun_exec cs \<and> \<not> touch_exec cs then
           (case cores rs of
              None \<Rightarrow> (Inl (ApiError Cores_have_to_be_specified), rs, s)
            | Some c \<Rightarrow>
                (let s1 = call_out Shell_cleanup s in
                 if debug es \<and> c > 1 then (Inl (ApiError Debug_with_multi_core), rs, s1)
                 else (Inr (), rs, s1)))
         else
           (let c = (case cores rs of None \<Rightarrow> 1 | Some c0 \<Rightarrow> c0);
                rs1 = rs\<lparr>cores := Some c\<rparr>
            in
            if debug es \<and> c > 1 then (Inl (ApiError Debug_with_multi_core), rs1, s)
            else (Inr (), rs1, s)))
      else
        (case nodes rs of
           None \<Rightarrow> (Inl (ApiError Nodes_have_to_be_specified), rs, s)
         | Some _ \<Rightarrow>
             (let rs1 = (case default_resources rs of
                           None \<Rightarrow> rs\<lparr>default_resources := Some (DefaultResources ''full'')\<rparr>
                         | Some _ \<Rightarrow> rs) in
              if edit_notebook es \<noteq> None then (Inl (ApiError Notebook_edit_needs_local), rs1, s)
              else if debug es then (Inl (ApiError Debug_with_non_local), rs1, s)
              else (Inr (), rs1, s))))"

text \<open>
  \<^verbatim>\<open>DAGApi.execute_workflow\<close>. The model ends where the code calls \<^verbatim>\<open>workflow.execute\<close>:
  the call is recorded with the plugin it is given, and the result \<open>Inr ()\<close> says that
  the call was reached. The two raises before the plugin is known leave every object as
  it was; after that, what has been written to the settings stays written when a later
  check raises.
\<close>

definition execute_workflow ::
  "outside \<Rightarrow> string \<Rightarrow> ExecutionSettings option \<Rightarrow> RemoteExecutionSettings option \<Rightarrow>
   DAGApi \<Rightarrow> (error + unit) \<times> DAGApi" where
  "execute_workflow out executor es_opt res_opt d =
     (let es = (case es_opt of None \<Rightarrow> default_ExecutionSettings out | Some x \<Rightarrow> x);
          res = (case res_opt of None \<Rightarrow> default_RemoteExecutionSettings out | Some x \<Rightarrow> x);
          w = dag_workflow_api d;
          s = dag_snakemake_api d
      in
      if immediate_submit res \<and> \<not> notemp (storage_settings w) then
        (Inl (ApiError Immediate_submit_needs_notemp), d)
      else
        (case get_plugin (get_executor_plugin_registry out) executor of
           Inl e \<Rightarrow> (Inl e, d)
         | Inr executor_plugin \<Rightarrow>
             (let cs = common_settings executor_plugin;
                  w1 = (if implies_no_shared_fs cs then
                          w\<lparr>storage_settings := (storage_settings w)\<lparr>assume_shared_fs := False\<rparr>\<rparr>
                        else w);
                  s1 = setup_logger (dryrun_exec cs) (dryrun_exec cs) s
              in
              case check_executor_settings cs es (resource_settings w1) s1 of
                (Inl e, rs2, s2) \<Rightarrow>
                  (Inl e, put_workflow_api (dag_held d) s2 (w1\<lparr>resource_settings := rs2\<rparr>))
              | (Inr _, rs2, s2) \<Rightarrow>
                  (let es1 = es\<lparr>use_threads :=
                                  use_threads es \<or> os_name out \<noteq> ''posix'' \<or> \<not> local_exec cs\<rparr>;
                       s3 = call_out Logger_setup_logfile s2;
                       w2 = w1\<lparr>resource_settings := rs2\<rparr>
                   in
                   case workflow_property out w2 of
                     (Inl e, w3) \<Rightarrow> (Inl e, put_workflow_api (dag_held d) s3 w3)
                   | (Inr wflow, w3) \<Rightarrow>
                       (Inr (),
                        put_workflow_api (dag_held d)
                          (call_out (Workflow_execute executor_plugin) s3)
                          (w3\<lparr>workflow_store :=
                                Some (wflow\<lparr>execution_settings := Some es1,
                                            remote_execution_settings := Some res\<rparr>)\<rparr>))))))"

subsection \<open>A concrete setting\<close>

text \<open>
  Objects on which the functions above are run: a file system given by the list of its
  files (with the working directory \<^verbatim>\<open>/work\<close>), an API object with a logger of its own, a
  registry that found two cluster plugins installed (one of them a dry run that is not
  local), and the \<^verbatim>\<open>DAGApi\<close> that the calls
  \<^verbatim>\<open>workflow\<close> and \<^verbatim>\<open>dag\<close> build inside a \<^verbatim>\<open>with\<close> statement, for given \<^verbatim>\<open>cores\<close> and
  \<^verbatim>\<open>nodes\<close>.
\<close>

definition example_api :: SnakemakeApi where
  "example_api = new_SnakemakeApi \<lparr>keep_logger = False\<rparr>"

definition example_workflow ::
  "path list \<Rightarrow> ResourceSettings \<Rightarrow> path option \<Rightarrow> SnakemakeApi \<Rightarrow>
   (error + WorkflowApi) \<times> SnakemakeApi" where
  "example_workflow files rs sf =
     workflow [''Snakefile'', ''snakefile''] (List.member files) (append ''/work/'')
       \<lparr>notemp = False, assume_shared_fs = True\<rparr> rs None sf None"

definition example_resources :: ResourceSettings where
  "example_resources = \<lparr>cores = Some 1, nodes = None, default_resources = None\<rparr>"

definition example_plugin :: "string \<Rightarrow> bool \<Rightarrow> bool \<Rightarrow> bool \<Rightarrow> ExecutorPlugin" where
  "example_plugin m l d t =
     \<lparr>plugin_module = m,
      common_settings = \<lparr>local_exec = l, dryrun_exec = d, touch_exec = t,
                         implies_no_shared_fs = \<not> l\<rparr>\<rparr>"

definition example_workflow_object :: Workflow where
  "example_workflow_object =
     \<lparr>has_workdir_handler = True, execution_settings = None,
      remote_execution_settings = None\<rparr>"

definition example_outside :: outside where
  "example_outside =
     \<lparr>installed = [''cluster'' \<mapsto> example_plugin ''cluster'' False False False,
                   ''cluster-dryrun'' \<mapsto> example_plugin ''cluster-dryrun'' False True False],
      local_executor = example_plugin ''local'' True False False,
      dryrun_executor = example_plugin ''dryrun'' True True False,
      touch_executor = example_plugin ''touch'' True False True,
      os_name = ''posix'',
      default_ExecutionSettings = \<lparr>debug = False, edit_notebook = None, use_threads = False\<rparr>,
      default_RemoteExecutionSettings = \<lparr>immediate_submit = False\<rparr>,
      built_workflow = Inr example_workflow_object\<rparr>"

definition example_workflow_api :: "int option \<Rightarrow> int option \<Rightarrow> WorkflowApi" where
  "example_workflow_api c n =
     \<lparr>snakefile = ''/work/snakefile'', workdir = None,
      resource_settings = \<lparr>cores = c, nodes = n, default_resources = None\<rparr>,
      storage_settings = \<lparr>notemp = False, assume_shared_fs = True\<rparr>,
      workflow_store = None\<rparr>"

definition example_dag :: "int option \<Rightarrow> int option \<Rightarrow> DAGApi" where
  "example_dag c n =
     \<lparr>dag_snakemake_api =
        \<lparr>output_settings = \<lparr>keep_logger = False\<rparr>,
         workflow_api =
           Some ((example_workflow_api c n)\<lparr>workflow_store := Some example_workflow_object\<rparr>),
         is_in_context = True,
         calls = [Setup_logger False False, Workdir_change_to None]\<rparr>,
      dag_workflow_api =
        (example_workflow_api c n)\<lparr>workflow_store := Some example_workflow_object\<rparr>,
      dag_held = True\<rparr>"

section \<open>The core behind the API: pattern matcher and scheduler\<close>

text \<open>
  \<^verbatim>\<open>workflow.execute\<close>, where the API ends, enters the core of the system: the pattern
  matcher, the DAG builder and the scheduler. Their code is not part of \<^verbatim>\<open>api.py\<close>; the
  definitions of this section follow the specification (sections 3, 4.1, 4.3, 4.4, 5
  and 7), whose words they quote.
\<close>

text \<open>Modelled from the spec: the error taxonomy of section 7, as far as the matcher and
  the resource check raise it (the code of these components is missing).\<close>

datatype core_error =
    NoMatch
  | AmbiguousWildcards
  | ResourceUnsatisfiable

subsection \<open>Pattern matcher (specification, section 4.1)\<close>

text \<open>Modelled from the spec: a pattern, split into literal segments and named-wildcard
  segments. The matcher's code is missing; the regular expression that may constrain a
  wildcard is given by the set of strings it accepts.\<close>

datatype segment = Lit string | Wild string "string \<Rightarrow> bool"

type_synonym pattern = "segment list"

text \<open>Modelled from the spec: a wildcard binding, "mapping from wildcard name to concrete
  string value" (section 3), as an association list.\<close>

type_synonym binding = "(string \<times> string) list"

text \<open>Modelled from the spec: "default wildcard regex matches any non-empty string".\<close>

definition default_constraint :: "string \<Rightarrow> bool" where
  "default_constraint v \<longleftrightarrow> v \<noteq> []"

text \<open>Modelled from the spec: the order in which candidate bindings are tried; the first
  success is the result.\<close>

fun first_success :: "('a \<Rightarrow> 'b option) \<Rightarrow> 'a list \<Rightarrow> 'b option" where
  "first_success f [] = None"
| "first_success f (x # xs) = (case f x of Some y \<Rightarrow> Some y | None \<Rightarrow> first_success f xs)"

text \<open>Modelled from the spec: \<^verbatim>\<open>Match\<close> from left to right. A literal segment has to be
  the next part of the path. A wildcard that is bound already has to be followed by its
  value again (a binding gives a name one value). A new wildcard tries the prefixes of
  the rest of the path that its constraint accepts, the shortest first, so that "the
  leftmost wildcards bind shorter substrings when multiple bindings are possible". The
  match fails when "the path's structure cannot align with the pattern's literal
  segments".\<close>

primrec match_from :: "pattern \<Rightarrow> binding \<Rightarrow> string \<Rightarrow> binding option" where
  "match_from [] = (\<lambda>b path. if path = [] then Some b else None)"
| "match_from (seg # segs) =
     (\<lambda>b path.
        case seg of
          Lit l \<Rightarrow>
            if take (length l) path = l then match_from segs b (drop (length l) path)
            else None
        | Wild n accepts \<Rightarrow>
            (case map_of b n of
               Some v \<Rightarrow>
                 if take (length v) path = v then match_from segs b (drop (length v) path)
                 else None
             | None \<Rightarrow>
                 first_success
                   (\<lambda>k. if accepts (take k path)
                        then match_from segs ((n, take k path) # b) (drop k path)
                        else None)
                   [1..<Suc (length path)]))"

text \<open>Modelled from the spec: "Match(pattern, concretePath) \<rightarrow> Binding | no-match", failing
  with \<^verbatim>\<open>NoMatch\<close>.\<close>

definition Match :: "pattern \<Rightarrow> string \<Rightarrow> core_error + binding" where
  "Match pat path = (case match_from pat [] path of None \<Rightarrow> Inl NoMatch | Some b \<Rightarrow> Inr b)"

text \<open>Modelled from the spec: the substitution of "bound wildcard values" into one
  pattern, which "fails with AmbiguousWildcards if a wildcard required by [the] pattern
  has no binding".\<close>

fun substitute :: "pattern \<Rightarrow> binding \<Rightarrow> core_error + string" where
  "substitute [] b = Inr []"
| "substitute (Lit l # segs) b =
     (case substitute segs b of Inl e \<Rightarrow> Inl e | Inr rest \<Rightarrow> Inr (l @ rest))"
| "substitute (Wild n accepts # segs) b =
     (case map_of b n of
        None \<Rightarrow> Inl AmbiguousWildcards
      | Some v \<Rightarrow> (case substitute segs b of Inl e \<Rightarrow> Inl e | Inr rest \<Rightarrow> Inr (v @ rest)))"

text \<open>Modelled from the spec: the substitution into a list of patterns, in order.\<close>

fun substitute_all :: "pattern list \<Rightarrow> binding \<Rightarrow> core_error + string list" where
  "substitute_all [] b = Inr []"
| "substitute_all (p # ps) b =
     (case substitute p b of
        Inl e \<Rightarrow> Inl e
      | Inr x \<Rightarrow> (case substitute_all ps b of Inl e \<Rightarrow> Inl e | Inr xs \<Rightarrow> Inr (x # xs)))"

text \<open>Modelled from the spec: a resource vector, "mapping resource-name \<rightarrow> amount"; a
  resource that the list does not name has amount 0.\<close>

type_synonym resources = "(string \<times> nat) list"

text \<open>Modelled from the spec: the amount that a resource vector holds for a resource
  name.\<close>

definition amount :: "resources \<Rightarrow> string \<Rightarrow> nat" where
  "amount d r = (case map_of d r of None \<Rightarrow> 0 | Some n \<Rightarrow> n)"

text \<open>Modelled from the spec: a \<^verbatim>\<open>Rule\<close> of section 3 (name, input patterns, output
  patterns, resource requirements in terms of the bound wildcards, priority, command
  template).\<close>

record rule =
  rule_name :: string
  rule_inputs :: "pattern list"
  rule_outputs :: "pattern list"
  rule_resources :: "binding \<Rightarrow> resources"
  rule_priority :: int
  rule_command :: string

text \<open>Modelled from the spec: "Resolve(rule, binding) \<rightarrow> concrete input paths, concrete
  output paths. Substitutes bound wildcard values into every input/output pattern of the
  rule."\<close>

definition Resolve :: "rule \<Rightarrow> binding \<Rightarrow> core_error + (string list \<times> string list)" where
  "Resolve r b =
     (case substitute_all (rule_inputs r) b of
        Inl e \<Rightarrow> Inl e
      | Inr ins \<Rightarrow>
          (case substitute_all (rule_outputs r) b of
             Inl e \<Rightarrow> Inl e
           | Inr outs \<Rightarrow> Inr (ins, outs)))"

subsection \<open>Jobs, job graph and resource pool (specification, section 3)\<close>

text \<open>Modelled from the spec: the job lifecycle states of section 3, with \<^verbatim>\<open>skipped\<close> of
  section 4.3.\<close>

datatype lifecycle = Pending | Ready | Running | Completed | Failed | Skipped

text \<open>Modelled from the spec: "Jobs are uniquely identified by (rule identity, wildcard
  binding)".\<close>

type_synonym job_id = "string \<times> binding"

text \<open>Modelled from the spec: a \<^verbatim>\<open>Job\<close> of section 3: the rule it comes from (by name), the
  binding, the resolved paths, the resolved resource demand, and the priority of its rule.
  The lifecycle state is kept by the scheduler, the only writer of job state (section
  5).\<close>

record job =
  job_rule :: string
  job_binding :: binding
  job_inputs :: "string list"
  job_outputs :: "string list"
  job_demand :: resources
  job_priority :: int

text \<open>Modelled from the spec: the identifying pair of a job.\<close>

definition job_key :: "job \<Rightarrow> job_id" where
  "job_key j = (job_rule j, job_binding j)"

text \<open>Modelled from the spec: the \<^verbatim>\<open>Job Graph\<close>; an edge \<open>(J1, J2)\<close> means that "J1 must
  complete before J2 may start".\<close>

record job_graph =
  jobs :: "job list"
  edges :: "(job_id \<times> job_id) list"

text \<open>Modelled from the spec: jobs are identified by their key, so a job graph holds one
  job for a key.\<close>

definition well_formed :: "job_graph \<Rightarrow> bool" where
  "well_formed g \<longleftrightarrow> distinct (map job_key (jobs g))"

text \<open>Modelled from the spec: the state that the scheduler alone writes: the lifecycle
  state of every job, the \<^verbatim>\<open>Resource Pool\<close> ("currently available capacity per named
  resource") and the attempts made for every job.\<close>

record sched_state =
  status :: "job_id \<Rightarrow> lifecycle"
  available :: "string \<Rightarrow> nat"
  attempts :: "job_id \<Rightarrow> nat"

text \<open>Modelled from the spec: the configuration of section 4.3: the "configured maximum
  attempt count", the "configurable secondary key" of the dispatch order, and whether "a
  configuration forces an immediate halt".\<close>

record config =
  max_attempts :: nat
  secondary_key :: "job \<Rightarrow> int"
  strict_halt :: bool

text \<open>Modelled from the spec: the state before a run. A job "whose outputs are verified
  up-to-date" is "marked completed without dispatch"; the others are pending. The pool
  holds the declared total capacity.\<close>

definition initial :: "resources \<Rightarrow> (job_id \<Rightarrow> bool) \<Rightarrow> sched_state" where
  "initial capacity uptodate =
     \<lparr>status = (\<lambda>k. if uptodate k then Completed else Pending),
      available = amount capacity,
      attempts = (\<lambda>k. 0)\<rparr>"

text \<open>Modelled from the spec: "a job requesting more than total capacity for any
  resource is rejected at graph-build time" with \<^verbatim>\<open>ResourceUnsatisfiable\<close>.\<close>

definition unsatisfiable :: "resources \<Rightarrow> job \<Rightarrow> bool" where
  "unsatisfiable capacity j \<longleftrightarrow>
     list_ex (\<lambda>r. amount capacity r < amount (job_demand j) r) (map fst (job_demand j))"

text \<open>Modelled from the spec: the check of the whole graph at build time: one job with
  an unsatisfiable demand makes it fail.\<close>

definition check_demands :: "resources \<Rightarrow> job_graph \<Rightarrow> core_error + job_graph" where
  "check_demands capacity g =
     (if list_ex (unsatisfiable capacity) (jobs g) then Inl ResourceUnsatisfiable else Inr g)"

subsection \<open>Scheduler (specification, section 4.3)\<close>

text \<open>Modelled from the spec: the dependencies of a job, the sources of its incoming
  edges.\<close>

definition predecessors :: "job_graph \<Rightarrow> job_id \<Rightarrow> job_id list" where
  "predecessors g k = map fst (filter (\<lambda>e. snd e = k) (edges g))"

text \<open>Modelled from the spec: step 1, "compute the ready set: pending jobs whose every
  dependency is completed".\<close>

definition mark_ready :: "job_graph \<Rightarrow> sched_state \<Rightarrow> sched_state" where
  "mark_ready g s =
     s\<lparr>status := (\<lambda>k.
          if status s k = Pending \<and> k \<in> set (map job_key (jobs g))
             \<and> list_all (\<lambda>a. status s a = Completed) (predecessors g k)
          then Ready else status s k)\<rparr>"

text \<open>Modelled from the spec: step 2, the order of the candidates: the ready jobs, sorted
  "by (priority descending, then a configurable secondary key)". The sort is stable, so
  sorting by the secondary key first makes it the second criterion.\<close>

definition candidates :: "config \<Rightarrow> job_graph \<Rightarrow> sched_state \<Rightarrow> job list" where
  "candidates cfg g s =
     sort_key (\<lambda>j. - job_priority j)
       (sort_key (secondary_key cfg)
          (filter (\<lambda>j. status s (job_key j) = Ready) (jobs g)))"

text \<open>Modelled from the spec: a "job's full resource vector fits remaining capacity".\<close>

definition fits :: "job \<Rightarrow> sched_state \<Rightarrow> bool" where
  "fits j s \<longleftrightarrow> list_all (\<lambda>r. amount (job_demand j) r \<le> available s r) (map fst (job_demand j))"

text \<open>Modelled from the spec: steps 2 and 3 for one candidate: a ready job that fits is
  admitted, marked \<^verbatim>\<open>running\<close>, and the pool is decremented by its demand; a job that
  does not fit is passed over.\<close>

definition admit :: "job \<Rightarrow> sched_state \<Rightarrow> sched_state" where
  "admit j s =
     (if status s (job_key j) = Ready \<and> fits j s then
        s\<lparr>status := (status s)(job_key j := Running),
          available := (\<lambda>r. available s r - amount (job_demand j) r)\<rparr>
      else s)"

text \<open>Modelled from the spec: the greedy admission of the candidates "in that order"; the
  result lists the state after every candidate.\<close>

primrec admit_each :: "job list \<Rightarrow> sched_state \<Rightarrow> sched_state list" where
  "admit_each [] s = []"
| "admit_each (j # js) s = admit j s # admit_each js (admit j s)"

text \<open>Modelled from the spec: steps 1 to 3 of the core loop, as the list of the states
  they go through.\<close>

definition schedule_trace :: "config \<Rightarrow> job_graph \<Rightarrow> sched_state \<Rightarrow> sched_state list" where
  "schedule_trace cfg g s =
     mark_ready g s # admit_each (candidates cfg g (mark_ready g s)) (mark_ready g s)"

text \<open>Modelled from the spec: the outcome that the executor reports for a job
  (section 4.4).\<close>

datatype outcome = Success | Failure

text \<open>Modelled from the spec: "the sum of demands of running jobs" for a resource.\<close>

definition running_demand :: "job_graph \<Rightarrow> sched_state \<Rightarrow> string \<Rightarrow> nat" where
  "running_demand g s r =
     sum_list (map (\<lambda>j. amount (job_demand j) r)
       (filter (\<lambda>j. status s (job_key j) = Running) (jobs g)))"

text \<open>Modelled from the spec: after a permanent failure "all of its transitive dependents
  are never dispatched and are reported as skipped": the dependents that have not been
  dispatched (pending or ready) become \<^verbatim>\<open>skipped\<close>.\<close>

definition skip_dependents :: "job_graph \<Rightarrow> job_id \<Rightarrow> sched_state \<Rightarrow> sched_state" where
  "skip_dependents g k s =
     s\<lparr>status := (\<lambda>k'.
          if (k, k') \<in> (set (edges g))\<^sup>+ \<and> (status s k' = Pending \<or> status s k' = Ready)
          then Skipped else status s k')\<rparr>"

text \<open>Modelled from the spec: the run-wide abort of section 5 under the strict-halt
  configuration, which cancels the running jobs and "transitions all non-terminal jobs to
  skipped"; the pool gets back what the cancelled jobs held.\<close>

definition halt :: "job_graph \<Rightarrow> sched_state \<Rightarrow> sched_state" where
  "halt g s =
     s\<lparr>status := (\<lambda>k.
          if status s k = Pending \<or> status s k = Ready \<or> status s k = Running
          then Skipped else status s k),
       available := (\<lambda>r. available s r + running_demand g s r)\<rparr>"

text \<open>Modelled from the spec: step 4 and the failure policy. A signal for a job that is
  not running is ignored. Otherwise the pool is incremented by the job's demand; a
  success completes the job; a failure is retried (the job "re-enters ready") while the
  attempts made stay below the maximum, and is permanent after that: the job is
  \<^verbatim>\<open>failed\<close> and its dependents are skipped, or the whole run is halted under the strict
  configuration.\<close>

definition on_signal ::
  "config \<Rightarrow> job_graph \<Rightarrow> job_id \<times> outcome \<Rightarrow> sched_state \<Rightarrow> sched_state" where
  "on_signal cfg g ev s =
     (case ev of (k, out) \<Rightarrow>
      case find (\<lambda>j. job_key j = k) (jobs g) of
        None \<Rightarrow> s
      | Some j \<Rightarrow>
          if status s k \<noteq> Running then s
          else
            (let s1 = s\<lparr>available := (\<lambda>r. available s r + amount (job_demand j) r)\<rparr> in
             case out of
               Success \<Rightarrow> s1\<lparr>status := (status s1)(k := Completed)\<rparr>
             | Failure \<Rightarrow>
                 (let n = Suc (attempts s k) in
                  if n < max_attempts cfg then
                    s1\<lparr>status := (status s1)(k := Ready), attempts := (attempts s1)(k := n)\<rparr>
                  else
                    (let s2 = s1\<lparr>status := (status s1)(k := Failed),
                                  attempts := (attempts s1)(k := n)\<rparr> in
                     if strict_halt cfg then halt g s2 else skip_dependents g k s2))))"

text \<open>Modelled from the spec: one signal of the executor, followed by steps 1 to 3 again
  ("re-run step 1 for newly unblocked jobs").\<close>

definition event_trace ::
  "config \<Rightarrow> job_graph \<Rightarrow> job_id \<times> outcome \<Rightarrow> sched_state \<Rightarrow> sched_state list" where
  "event_trace cfg g ev s = on_signal cfg g ev s # schedule_trace cfg g (on_signal cfg g ev s)"

text \<open>Modelled from the spec: the core loop over the signals of the executor, one after
  the other.\<close>

primrec events_trace ::
  "config \<Rightarrow> job_graph \<Rightarrow> (job_id \<times> outcome) list \<Rightarrow> sched_state \<Rightarrow> sched_state list" where
  "events_trace cfg g [] s = []"
| "events_trace cfg g (ev # evs) s =
     event_trace cfg g ev s @ events_trace cfg g evs (last (event_trace cfg g ev s))"

text \<open>Modelled from the spec: \<^verbatim>\<open>Run(graph, resourcePool)\<close> for the signals that the
  executor sends, in their order: every state that the scheduler's data goes through,
  from the state before the run on.\<close>

definition Run_trace ::
  "config \<Rightarrow> job_graph \<Rightarrow> sched_state \<Rightarrow> (job_id \<times> outcome) list \<Rightarrow> sched_state list" where
  "Run_trace cfg g s0 evs =
     s0 # schedule_trace cfg g s0 @ events_trace cfg g evs (last (schedule_trace cfg g s0))"

text \<open>Modelled from the spec: the "terminal graph" that \<^verbatim>\<open>Run\<close> returns, the last
  state of the run.\<close>

definition Run ::
  "config \<Rightarrow> job_graph \<Rightarrow> sched_state \<Rightarrow> (job_id \<times> outcome) list \<Rightarrow> sched_state" where
  "Run cfg g s0 evs = last (Run_trace cfg g s0 evs)"

text \<open>Modelled from the spec: graph-construction errors "abort the entire run immediately
  (no partial graph is executed)": the demands are checked against the declared capacity
  before the run starts.\<close>

definition Execute ::
  "config \<Rightarrow> resources \<Rightarrow> (job_id \<Rightarrow> bool) \<Rightarrow> job_graph \<Rightarrow> (job_id \<times> outcome) list \<Rightarrow>
   core_error + sched_state list" where
  "Execute cfg capacity uptodate g evs =
     (case check_demands capacity g of
        Inl e \<Rightarrow> Inl e
      | Inr g' \<Rightarrow> Inr (Run_trace cfg g' (initial capacity uptodate) evs))"

subsection \<open>Invariants of the scheduler\<close>

text \<open>One move of the scheduler: a state of a run follows its predecessor by one of
  these.\<close>

definition atomic :: "config \<Rightarrow> job_graph \<Rightarrow> sched_state \<Rightarrow> sched_state \<Rightarrow> bool" where
  "atomic cfg g s s' \<longleftrightarrow>
     s' = mark_ready g s \<or> (\<exists>j \<in> set (jobs g). s' = admit j s)
     \<or> (\<exists>ev. s' = on_signal cfg g ev s)"

text \<open>What is running and what is available never exceeds the declared capacity.\<close>

definition pool_ok :: "job_graph \<Rightarrow> resources \<Rightarrow> sched_state \<Rightarrow> bool" where
  "pool_ok g capacity s \<longleftrightarrow> (\<forall>r. running_demand g s r + available s r \<le> amount capacity r)"

text \<open>A job that is ready or running has all its predecessors completed.\<close>

definition ordered :: "job_graph \<Rightarrow> sched_state \<Rightarrow> bool" where
  "ordered g s \<longleftrightarrow>
     (\<forall>a b. (a, b) \<in> set (edges g) \<longrightarrow> status s b = Ready \<or> status s b = Running \<longrightarrow>
        status s a = Completed)"

text \<open>Between two states, every job that starts to run has its predecessors completed,
  before and after.\<close>

definition starts_after :: "job_graph \<Rightarrow> sched_state \<Rightarrow> sched_state \<Rightarrow> bool" where
  "starts_after g s s' \<longleftrightarrow>
     (\<forall>a b. (a, b) \<in> set (edges g) \<longrightarrow> status s b \<noteq> Running \<longrightarrow> status s' b = Running \<longrightarrow>
        status s a = Completed \<and> status s' a = Completed)"

subsection \<open>A concrete workflow\<close>

text \<open>
  Three jobs on a pool of three cores: \<open>A\<close> (one core), \<open>B\<close> (two cores), which consumes
  the output of \<open>A\<close>, and an independent \<open>C\<close> (two cores) of higher priority. No job is
  up to date, a failed job is not retried, and the executor reports the success of \<open>A\<close>
  and then of \<open>C\<close>.
\<close>

definition exA :: job where
  "exA = \<lparr>job_rule = ''A'', job_binding = [], job_inputs = [''x.txt''],
          job_outputs = [''y.txt''], job_demand = [(''cores'', 1)], job_priority = 0\<rparr>"

definition exB :: job where
  "exB = \<lparr>job_rule = ''B'', job_binding = [], job_inputs = [''y.txt''],
          job_outputs = [''z.txt''], job_demand = [(''cores'', 2)], job_priority = 0\<rparr>"

definition exC :: job where
  "exC = \<lparr>job_rule = ''C'', job_binding = [], job_inputs = [],
          job_outputs = [''c.txt''], job_demand = [(''cores'', 2)], job_priority = 5\<rparr>"

definition exG :: job_graph where
  "exG = \<lparr>jobs = [exA, exB, exC], edges = [(job_key exA, job_key exB)]\<rparr>"

definition exCfg :: config where
  "exCfg = \<lparr>max_attempts = 1, secondary_key = (\<lambda>j. 0), strict_halt = False\<rparr>"

definition exStale :: "job_id \<Rightarrow> bool" where
  "exStale k = False"

definition exEvents :: "(job_id \<times> outcome) list" where
  "exEvents = [(job_key exA, Success), (job_key exC, Success)]"

definition exTrace :: "sched_state list" where
  "exTrace = Run_trace exCfg exG (initial [(''cores'', 3)] exStale) exEvents"

text \<open>A pattern with two wildcards and a path that it matches.\<close>

definition exPattern :: pattern where
  "exPattern = [Lit ''data/'', Wild ''sample'' default_constraint, Lit ''.'',
                Wild ''ext'' default_constraint]"

definition exRule :: rule where
  "exRule = \<lparr>rule_name = ''convert'',
             rule_inputs = [[Lit ''raw/'', Wild ''sample'' default_constraint]],
             rule_outputs = [exPattern],
             rule_resources = (\<lambda>b. [(''cores'', 1)]),
             rule_priority = 0,
             rule_command = ''convert''\<rparr>"

section \<open>Properties of the API\<close>

lemma try_choices_Inr:
  "try_choices ex ps = Inr p \<longleftrightarrow>
     (\<exists>i < length ps. ps ! i = p \<and> ex p \<and> (\<forall>j < i. \<not> ex (ps ! j)))"
proof (induction ps)
  case Nil
  show ?case by simp
next
  case (Cons q qs)
  show ?case
  proof (cases "ex q")
    case True
    have "(\<exists>i < length (q # qs). (q # qs) ! i = p \<and> ex p \<and> (\<forall>j < i. \<not> ex ((q # qs) ! j)))
          \<longleftrightarrow> q = p"
    proof
      assume "\<exists>i < length (q # qs). (q # qs) ! i = p \<and> ex p \<and> (\<forall>j < i. \<not> ex ((q # qs) ! j))"
      then obtain i where i: "(q # qs) ! i = p" "\<forall>j < i. \<not> ex ((q # qs) ! j)" by blast
      from i(2) True have "i = 0" by (cases i) auto
      with i(1) show "q = p" by simp
    next
      assume "q = p"
      with True show "\<exists>i < length (q # qs). (q # qs) ! i = p \<and> ex p \<and> (\<forall>j < i. \<not> ex ((q # qs) ! j))"
        by (intro exI [of _ 0]) simp
    qed
    with True show ?thesis by simp
  next
    case False
    have "(\<exists>i < length (q # qs). (q # qs) ! i = p \<and> ex p \<and> (\<forall>j < i. \<not> ex ((q # qs) ! j)))
          \<longleftrightarrow> (\<exists>i < length qs. qs ! i = p \<and> ex p \<and> (\<forall>j < i. \<not> ex (qs ! j)))"
      (is "?L \<longleftrightarrow> ?R")
    proof
      assume ?L
      then obtain i where i: "i < length (q # qs)" "(q # qs) ! i = p" "ex p"
        "\<forall>j < i. \<not> ex ((q # qs) ! j)" by blast
      from i(2,3) False obtain k where k: "i = Suc k" by (cases i) auto
      have "\<forall>j < k. \<not> ex (qs ! j)"
      proof (intro allI impI)
        fix j assume "j < k"
        then have "Suc j < i" using k by simp
        with i(4) have "\<not> ex ((q # qs) ! Suc j)" by blast
        then show "\<not> ex (qs ! j)" by simp
      qed
      with i k show ?R by auto
    next
      assume ?R
      then obtain i where i: "i < length qs" "qs ! i = p" "ex p" "\<forall>j < i. \<not> ex (qs ! j)"
        by blast
      have "\<forall>j < Suc i. \<not> ex ((q # qs) ! j)"
      proof (intro allI impI)
        fix j assume "j < Suc i"
        then show "\<not> ex ((q # qs) ! j)" using False i(4) by (cases j) auto
      qed
      with i show ?L by (intro exI [of _ "Suc i"]) simp
    qed
    with False Cons.IH show ?thesis by simp
  qed
qed

lemma try_choices_Inl:
  "try_choices ex ps = Inl e \<longleftrightarrow> e = ApiError No_Snakefile_found \<and> (\<forall>p \<in> set ps. \<not> ex p)"
  by (induction ps) auto

text \<open>
  Claim C10. \<^verbatim>\<open>resolve_snakefile(None)\<close> returns the first path of
  \<^verbatim>\<open>SNAKEFILE_CHOICES\<close>, in order, that exists, and raises \<^verbatim>\<open>ApiError\<close> when none of them
  exists. \<^verbatim>\<open>resolve_snakefile(p)\<close> for a given \<open>p\<close> returns \<open>p\<close> whether or not it
  exists; a given snakefile that does not exist is rejected with \<^verbatim>\<open>ApiError\<close> when the
  \<^verbatim>\<open>WorkflowApi\<close> is constructed, also on the way through \<^verbatim>\<open>SnakemakeApi.workflow\<close>.
\<close>

theorem resolve_snakefile_first_existing:
  "(resolve_snakefile choices ex None = Inr p \<longleftrightarrow>
      (\<exists>i < length choices. choices ! i = p \<and> ex p \<and> (\<forall>j < i. \<not> ex (choices ! j))))
   \<and> (resolve_snakefile choices ex None = Inl e \<longleftrightarrow>
      e = ApiError No_Snakefile_found \<and> (\<forall>c \<in> set choices. \<not> ex c))
   \<and> resolve_snakefile choices ex (Some q) = Inr q
   \<and> (\<not> ex q \<longrightarrow>
        new_WorkflowApi ex absolute q wd rs ss s = (Inl (ApiError (Snakefile_not_found q)), s))
   \<and> (\<not> ex q \<and> is_in_context s \<longrightarrow>
        fst (workflow choices ex absolute dflt rs ss_opt (Some q) wd s)
          = Inl (ApiError (Snakefile_not_found q)))"
proof (intro conjI impI)
  show "resolve_snakefile choices ex None = Inr p \<longleftrightarrow>
      (\<exists>i < length choices. choices ! i = p \<and> ex p \<and> (\<forall>j < i. \<not> ex (choices ! j)))"
    by (simp add: resolve_snakefile_def try_choices_Inr)
  show "resolve_snakefile choices ex None = Inl e \<longleftrightarrow>
      e = ApiError No_Snakefile_found \<and> (\<forall>c \<in> set choices. \<not> ex c)"
    by (simp add: resolve_snakefile_def try_choices_Inl)
  show "resolve_snakefile choices ex (Some q) = Inr q"
    by (simp add: resolve_snakefile_def)
  show "new_WorkflowApi ex absolute q wd rs ss s = (Inl (ApiError (Snakefile_not_found q)), s)"
    if "\<not> ex q"
    using that by (simp add: new_WorkflowApi_def WorkflowApi_check_def)
  show "fst (workflow choices ex absolute dflt rs ss_opt (Some q) wd s)
          = Inl (ApiError (Snakefile_not_found q))"
    if "\<not> ex q \<and> is_in_context s"
    using that
    by (simp add: workflow_def check_is_in_context_def resolve_snakefile_def
        new_WorkflowApi_def WorkflowApi_check_def Let_def)
qed

text \<open>
  With \<^verbatim>\<open>snakefile\<close> and \<^verbatim>\<open>workflow/Snakefile\<close> on the file system the first of the choices
  that exists is \<^verbatim>\<open>snakefile\<close>; on an empty file system there is none, a given
  \<^verbatim>\<open>missing.smk\<close> is returned as it is, and the workflow API rejects it.
\<close>

theorem resolve_snakefile_first_existing_witness:
  "resolve_snakefile [''Snakefile'', ''snakefile'', ''workflow/Snakefile'']
       (List.member [''snakefile'', ''workflow/Snakefile'']) None = Inr ''snakefile''
   \<and> resolve_snakefile [''Snakefile'', ''snakefile'', ''workflow/Snakefile'']
       (List.member []) None = Inl (ApiError No_Snakefile_found)
   \<and> resolve_snakefile [''Snakefile'', ''snakefile'', ''workflow/Snakefile'']
       (List.member []) (Some ''missing.smk'') = Inr ''missing.smk''
   \<and> new_WorkflowApi (List.member []) (append ''/work/'') ''missing.smk'' None
        example_resources \<lparr>notemp = False, assume_shared_fs = True\<rparr> (enter example_api)
       = (Inl (ApiError (Snakefile_not_found ''missing.smk'')), enter example_api)
   \<and> fst (workflow [''Snakefile'', ''snakefile'', ''workflow/Snakefile''] (List.member [])
            (append ''/work/'') \<lparr>notemp = False, assume_shared_fs = True\<rparr> example_resources
            None (Some ''missing.smk'') None (enter example_api))
       = Inl (ApiError (Snakefile_not_found ''missing.smk''))"
proof -
  let ?cs = "[''Snakefile'', ''snakefile'', ''workflow/Snakefile'']"
  let ?fs = "List.member [''snakefile'', ''workflow/Snakefile'']"
  let ?no = "List.member ([] :: path list)"
  let ?ss = "\<lparr>notemp = False, assume_shared_fs = True\<rparr>"
  let ?s = "enter example_api"
  have ctx: "is_in_context ?s"
    by (simp add: enter_def)
  have missing: "\<not> ?no ''missing.smk''"
    by simp
  have first: "\<exists>i < length ?cs. ?cs ! i = ''snakefile'' \<and> ?fs ''snakefile''
      \<and> (\<forall>j < i. \<not> ?fs (?cs ! j))"
    by (intro exI [of _ 1]) simp
  have none: "\<forall>c \<in> set ?cs. \<not> ?no c"
    by simp
  note a = resolve_snakefile_first_existing
    [of ?cs ?fs "''snakefile''" "ApiError No_Snakefile_found" "''missing.smk''"]
  note b = resolve_snakefile_first_existing
    [of ?cs ?no "''snakefile''" "ApiError No_Snakefile_found" "''missing.smk''"
      "append ''/work/''" None example_resources ?ss ?s ?ss None]
  from a first have 1: "resolve_snakefile ?cs ?fs None = Inr ''snakefile''"
    by blast
  from b none have 2: "resolve_snakefile ?cs ?no None = Inl (ApiError No_Snakefile_found)"
    by blast
  from b have 3: "resolve_snakefile ?cs ?no (Some ''missing.smk'') = Inr ''missing.smk''"
    by blast
  from b missing have 4: "new_WorkflowApi ?no (append ''/work/'') ''missing.smk'' None
      example_resources ?ss ?s = (Inl (ApiError (Snakefile_not_found ''missing.smk'')), ?s)"
    by blast
  from b missing ctx have 5: "fst (workflow ?cs ?no (append ''/work/'') ?ss example_resources
      None (Some ''missing.smk'') None ?s)
       = Inl (ApiError (Snakefile_not_found ''missing.smk''))"
    by blast
  from 1 2 3 4 5 show ?thesis by blast
qed

lemma cleanup_is_in_context: "is_in_context (cleanup s) = is_in_context s"
  by (simp add: cleanup_def call_out_def Let_def split: option.splits)

lemma cleanup_calls:
  "calls (cleanup s) = calls s
     @ (if keep_logger (output_settings s) then [] else [Logger_cleanup])
     @ (case workflow_api s of
          None \<Rightarrow> []
        | Some w \<Rightarrow>
            Workdir_change_back #
            (case workflow_store w of
               None \<Rightarrow> []
             | Some wflow \<Rightarrow>
                 if has_workdir_handler wflow then [Workflow_workdir_change_back] else []))"
  by (simp add: cleanup_def call_out_def Let_def split: option.splits)

lemma enter_workflow_api: "workflow_api (enter s) = workflow_api s"
  by (simp add: enter_def)

lemma workflow_outside_context:
  "\<not> is_in_context s \<Longrightarrow>
     workflow C ex ab dflt rs sso sfo wd s = (Inl (ApiError Only_within_with_statement), s)"
  by (simp add: workflow_def check_is_in_context_def Let_def)

lemma workflow_in_context:
  "is_in_context s \<Longrightarrow>
   workflow C ex ab dflt rs sso sfo wd s =
     (let ss = (case sso of None \<Rightarrow> dflt | Some x \<Rightarrow> x);
          s1 = setup_logger False False s in
      case resolve_snakefile C ex sfo of
        Inl e \<Rightarrow> (Inl e, s1)
      | Inr sf \<Rightarrow>
          if ex sf then
            (let w = \<lparr>snakefile = ab sf, workdir = wd, resource_settings = rs,
                      storage_settings = ss, workflow_store = None\<rparr> in
             (Inr w, (call_out (Workdir_change_to wd) s1)\<lparr>workflow_api := Some w\<rparr>))
          else (Inl (ApiError (Snakefile_not_found sf)), s1))"
  by (simp add: workflow_def check_is_in_context_def Let_def new_WorkflowApi_def
      WorkflowApi_check_def split: sum.splits)

lemma resolve_snakefile_error:
  "resolve_snakefile C ex sfo = Inl e \<Longrightarrow> e = ApiError No_Snakefile_found"
  by (auto simp: resolve_snakefile_def try_choices_Inl split: option.splits)

text \<open>
  Claim C8, as amended. Outside a \<^verbatim>\<open>with\<close> statement \<^verbatim>\<open>SnakemakeApi.workflow\<close> raises
  \<^verbatim>\<open>ApiError\<close> and leaves the object as it was (no workflow API is created). \<^verbatim>\<open>__enter__\<close>
  sets the flag, so the check passes and the call no longer raises that error: it returns
  the new workflow API, stored in the object, whenever the snakefile resolves to a file
  that exists, and otherwise it still raises \<^verbatim>\<open>ApiError\<close>, for the missing snakefile (the
  given one does not exist, or none of the default choices does), and creates no workflow
  API. \<^verbatim>\<open>__exit__\<close> clears the flag and runs the cleanup (the logger's cleanup unless
  \<^verbatim>\<open>keep_logger\<close>, and the change back of the working directory when a workflow API
  exists), so that afterwards the same call raises \<^verbatim>\<open>ApiError\<close> again.
\<close>

theorem workflow_only_in_context:
  "(\<not> is_in_context s \<longrightarrow>
      workflow C ex ab dflt rs sso sfo wd s = (Inl (ApiError Only_within_with_statement), s))
   \<and> is_in_context (enter s)
   \<and> check_is_in_context (enter s) = Inr ()
   \<and> fst (workflow C ex ab dflt rs sso sfo wd (enter s)) \<noteq> Inl (ApiError Only_within_with_statement)
   \<and> (resolve_snakefile C ex sfo = Inr sf \<and> ex sf \<longrightarrow>
        (\<exists>w. fst (workflow C ex ab dflt rs sso sfo wd (enter s)) = Inr w
           \<and> snakefile w = ab sf
           \<and> workflow_api (snd (workflow C ex ab dflt rs sso sfo wd (enter s))) = Some w))
   \<and> (resolve_snakefile C ex sfo = Inr sf \<and> \<not> ex sf \<longrightarrow>
        fst (workflow C ex ab dflt rs sso sfo wd (enter s))
          = Inl (ApiError (Snakefile_not_found sf))
        \<and> workflow_api (snd (workflow C ex ab dflt rs sso sfo wd (enter s))) = workflow_api s)
   \<and> (resolve_snakefile C ex sfo = Inl e \<longrightarrow>
        e = ApiError No_Snakefile_found
        \<and> fst (workflow C ex ab dflt rs sso sfo wd (enter s)) = Inl (ApiError No_Snakefile_found)
        \<and> workflow_api (snd (workflow C ex ab dflt rs sso sfo wd (enter s))) = workflow_api s)
   \<and> exit_ctx s = cleanup (s\<lparr>is_in_context := False\<rparr>)
   \<and> \<not> is_in_context (exit_ctx s)
   \<and> calls (exit_ctx s) = calls s
        @ (if keep_logger (output_settings s) then [] else [Logger_cleanup])
        @ (case workflow_api s of
             None \<Rightarrow> []
           | Some w \<Rightarrow>
               Workdir_change_back #
               (case workflow_store w of
                  None \<Rightarrow> []
                | Some wflow \<Rightarrow>
                    if has_workdir_handler wflow then [Workflow_workdir_change_back] else []))
   \<and> workflow C ex ab dflt rs sso sfo wd (exit_ctx s)
        = (Inl (ApiError Only_within_with_statement), exit_ctx s)"
proof -
  let ?r = "workflow C ex ab dflt rs sso sfo wd (enter s)"
  have ctx: "is_in_context (enter s)"
    by (simp add: enter_def)
  have out: "\<not> is_in_context (exit_ctx s)"
    by (simp add: exit_ctx_def cleanup_is_in_context)
  have passes: "fst ?r \<noteq> Inl (ApiError Only_within_with_statement)"
    using resolve_snakefile_error [of C ex sfo]
    by (auto simp: workflow_in_context [OF ctx] Let_def split: sum.splits)
  have succeeds: "\<exists>w. fst ?r = Inr w \<and> snakefile w = ab sf \<and> workflow_api (snd ?r) = Some w"
    if "resolve_snakefile C ex sfo = Inr sf \<and> ex sf"
    using that by (simp add: workflow_in_context [OF ctx] Let_def)
  have missing: "fst ?r = Inl (ApiError (Snakefile_not_found sf))
      \<and> workflow_api (snd ?r) = workflow_api s"
    if "resolve_snakefile C ex sfo = Inr sf \<and> \<not> ex sf"
    using that
    by (simp add: workflow_in_context [OF ctx] Let_def setup_logger_def call_out_def
        enter_workflow_api)
  have unresolved: "e = ApiError No_Snakefile_found
      \<and> fst ?r = Inl (ApiError No_Snakefile_found)
      \<and> workflow_api (snd ?r) = workflow_api s"
    if "resolve_snakefile C ex sfo = Inl e"
    using that resolve_snakefile_error [of C ex sfo e]
    by (simp add: workflow_in_context [OF ctx] Let_def setup_logger_def call_out_def
        enter_workflow_api)
  show ?thesis
    using ctx out passes succeeds missing unresolved
    by (simp add: workflow_outside_context check_is_in_context_def exit_ctx_def cleanup_calls)
qed

text \<open>
  The life cycle on a file system holding \<^verbatim>\<open>snakefile\<close>: the call fails before the
  \<^verbatim>\<open>with\<close> statement, succeeds inside it and fails again after it. On an empty file
  system the call fails inside the \<^verbatim>\<open>with\<close> statement too, for a given snakefile and
  for the default choices.
\<close>

theorem workflow_only_in_context_witness:
  "example_workflow [''snakefile''] example_resources None example_api
     = (Inl (ApiError Only_within_with_statement), example_api)
   \<and> fst (example_workflow [''snakefile''] example_resources None (enter example_api))
     = Inr (example_workflow_api (Some 1) None)
   \<and> fst (example_workflow [] example_resources (Some ''given.smk'') (enter example_api))
     = Inl (ApiError (Snakefile_not_found ''given.smk''))
   \<and> fst (example_workflow [] example_resources None (enter example_api))
     = Inl (ApiError No_Snakefile_found)
   \<and> calls (exit_ctx (snd (example_workflow [''snakefile''] example_resources None (enter example_api))))
     = [Setup_logger False False, Workdir_change_to None, Logger_cleanup, Workdir_change_back]
   \<and> fst (example_workflow [''snakefile''] example_resources None
        (exit_ctx (snd (example_workflow [''snakefile''] example_resources None (enter example_api)))))
     = Inl (ApiError Only_within_with_statement)"
proof -
  let ?w = "example_workflow [''snakefile''] example_resources None"
  let ?s1 = "snd (?w (enter example_api))"
  let ?C = "[''Snakefile'', ''snakefile'']"
  let ?ss = "\<lparr>notemp = False, assume_shared_fs = True\<rparr>"
  have outside: "\<not> is_in_context example_api"
    by (simp add: example_api_def new_SnakemakeApi_def)
  have found: "resolve_snakefile ?C (List.member [''snakefile'']) None
      = Inr ''snakefile'' \<and> List.member [''snakefile''] ''snakefile''"
    by (simp add: resolve_snakefile_def)
  have given: "resolve_snakefile ?C (List.member []) (Some ''given.smk'') = Inr ''given.smk''
      \<and> \<not> List.member [] ''given.smk''"
    by (simp add: resolve_snakefile_def)
  have no_default: "resolve_snakefile ?C (List.member []) None = Inl (ApiError No_Snakefile_found)"
    by (simp add: resolve_snakefile_def)
  note t = workflow_only_in_context
    [of _ ?C "List.member [''snakefile'']" "append ''/work/''" ?ss
      example_resources None None None "''snakefile''", folded example_workflow_def]
  note t_given = workflow_only_in_context
    [of example_api ?C "List.member []" "append ''/work/''" ?ss
      example_resources None "Some ''given.smk''" None "''given.smk''",
      folded example_workflow_def]
  note t_nothing = workflow_only_in_context
    [of example_api ?C "List.member []" "append ''/work/''" ?ss
      example_resources None None None "''snakefile''" "ApiError No_Snakefile_found",
      folded example_workflow_def]
  from t [of example_api] outside
  have 1: "?w example_api = (Inl (ApiError Only_within_with_statement), example_api)"
    by blast
  from t [of example_api] found obtain w where
    w: "fst (?w (enter example_api)) = Inr w" "snakefile w = ''/work/'' @ ''snakefile''"
      "workflow_api ?s1 = Some w"
    by blast
  have 2: "fst (?w (enter example_api)) = Inr (example_workflow_api (Some 1) None)"
    by (simp add: example_workflow_def example_resources_def workflow_def check_is_in_context_def
        enter_def example_api_def new_SnakemakeApi_def resolve_snakefile_def new_WorkflowApi_def
        WorkflowApi_check_def Let_def setup_logger_def call_out_def example_workflow_api_def)
  from t_given given
  have 3: "fst (example_workflow [] example_resources (Some ''given.smk'') (enter example_api))
      = Inl (ApiError (Snakefile_not_found ''given.smk''))"
    by blast
  from no_default t_nothing
  have 4: "fst (example_workflow [] example_resources None (enter example_api))
      = Inl (ApiError No_Snakefile_found)"
    by simp
  have s1: "calls ?s1 = [Setup_logger False False, Workdir_change_to None]"
    "output_settings ?s1 = \<lparr>keep_logger = False\<rparr>"
    by (simp_all add: example_workflow_def example_resources_def workflow_def
        check_is_in_context_def enter_def example_api_def new_SnakemakeApi_def
        resolve_snakefile_def new_WorkflowApi_def WorkflowApi_check_def Let_def
        setup_logger_def call_out_def)
  from w(1) 2 have "workflow_store w = None"
    by (auto simp: example_workflow_api_def)
  moreover from t [of ?s1]
  have "calls (exit_ctx ?s1) = calls ?s1
        @ (if keep_logger (output_settings ?s1) then [] else [Logger_cleanup])
        @ (case workflow_api ?s1 of
             None \<Rightarrow> []
           | Some w \<Rightarrow>
               Workdir_change_back #
               (case workflow_store w of
                  None \<Rightarrow> []
                | Some wflow \<Rightarrow>
                    if has_workdir_handler wflow then [Workflow_workdir_change_back] else []))"
    by blast
  ultimately
  have 5: "calls (exit_ctx ?s1)
     = [Setup_logger False False, Workdir_change_to None, Logger_cleanup, Workdir_change_back]"
    using w(3) s1 by simp
  from t [of ?s1]
  have "?w (exit_ctx ?s1) = (Inl (ApiError Only_within_with_statement), exit_ctx ?s1)"
    by blast
  then have 6: "fst (?w (exit_ctx ?s1)) = Inl (ApiError Only_within_with_statement)"
    by simp
  from 1 2 3 4 5 6 show ?thesis by blast
qed

text \<open>
  Claim C8 as stated says that inside the \<^verbatim>\<open>with\<close> statement the call succeeds. With a
  snakefile that does not exist it raises \<^verbatim>\<open>ApiError\<close> there too, and creates no workflow
  API.
\<close>

theorem workflow_in_context_missing_snakefile:
  "is_in_context (enter example_api)
   \<and> fst (example_workflow [] example_resources (Some ''missing.smk'') (enter example_api))
       = Inl (ApiError (Snakefile_not_found ''missing.smk''))
   \<and> workflow_api (snd (example_workflow [] example_resources (Some ''missing.smk'') (enter example_api))) = None"
  by (simp add: example_workflow_def example_resources_def workflow_def check_is_in_context_def enter_def
      example_api_def new_SnakemakeApi_def resolve_snakefile_def new_WorkflowApi_def
      WorkflowApi_check_def Let_def setup_logger_def call_out_def)

lemma registry_lookup:
  "get_executor_plugin_registry out n =
     (case installed out n of
        Some p \<Rightarrow> Some p
      | None \<Rightarrow>
          if n = ''local'' then Some (local_executor out)
          else if n = ''dryrun'' then Some (dryrun_executor out)
          else if n = ''touch'' then Some (touch_executor out)
          else None)"
  by (simp add: get_executor_plugin_registry_def register_plugin_def split: option.splits)

lemma get_plugin_Inr: "get_plugin reg n = Inr p \<longleftrightarrow> reg n = Some p"
  by (simp add: get_plugin_def split: option.splits)


lemma put_workflow_api_simps:
  "calls (dag_snakemake_api (put_workflow_api h s w)) = calls s"
  "dag_workflow_api (put_workflow_api h s w) = w"
  "dag_held (put_workflow_api h s w) = h"
  by (simp_all add: put_workflow_api_def)

lemma execute_workflow_immediate_submit:
  "immediate_submit (case res_opt of None \<Rightarrow> default_RemoteExecutionSettings out | Some x \<Rightarrow> x)
     \<and> \<not> notemp (storage_settings (dag_workflow_api d)) \<Longrightarrow>
   execute_workflow out executor es_opt res_opt d
     = (Inl (ApiError Immediate_submit_needs_notemp), d)"
  by (simp add: execute_workflow_def Let_def)


text \<open>Past the first check, with the plugin found: the three ways the call can end.\<close>

lemma execute_workflow_cases:
  fixes out executor es_opt res_opt d p
  defines "es \<equiv> (case es_opt of None \<Rightarrow> default_ExecutionSettings out | Some x \<Rightarrow> x)"
    and "res \<equiv> (case res_opt of None \<Rightarrow> default_RemoteExecutionSettings out | Some x \<Rightarrow> x)"
    and "cs \<equiv> common_settings p"
  defines "w1 \<equiv> (if implies_no_shared_fs cs then
                    (dag_workflow_api d)\<lparr>storage_settings :=
                       (storage_settings (dag_workflow_api d))\<lparr>assume_shared_fs := False\<rparr>\<rparr>
                  else dag_workflow_api d)"
    and "s1 \<equiv> setup_logger (dryrun_exec cs) (dryrun_exec cs) (dag_snakemake_api d)"
  assumes nf: "\<not> (immediate_submit res \<and> \<not> notemp (storage_settings (dag_workflow_api d)))"
    and reg: "get_executor_plugin_registry out executor = Some p"
  obtains
    (check_fails) e rs2 s2 where
      "check_executor_settings cs es (resource_settings w1) s1 = (Inl e, rs2, s2)"
      "execute_workflow out executor es_opt res_opt d
         = (Inl e, put_workflow_api (dag_held d) s2 (w1\<lparr>resource_settings := rs2\<rparr>))"
  | (build_fails) e rs2 s2 w3 where
      "check_executor_settings cs es (resource_settings w1) s1 = (Inr (), rs2, s2)"
      "workflow_property out (w1\<lparr>resource_settings := rs2\<rparr>) = (Inl e, w3)"
      "execute_workflow out executor es_opt res_opt d
         = (Inl e, put_workflow_api (dag_held d) (call_out Logger_setup_logfile s2) w3)"
  | (runs) rs2 s2 wflow w3 where
      "check_executor_settings cs es (resource_settings w1) s1 = (Inr (), rs2, s2)"
      "workflow_property out (w1\<lparr>resource_settings := rs2\<rparr>) = (Inr wflow, w3)"
      "execute_workflow out executor es_opt res_opt d
         = (Inr (),
            put_workflow_api (dag_held d)
              (call_out (Workflow_execute p) (call_out Logger_setup_logfile s2))
              (w3\<lparr>workflow_store :=
                    Some (wflow\<lparr>execution_settings :=
                                  Some (es\<lparr>use_threads := use_threads es \<or> os_name out \<noteq> ''posix''
                                                     \<or> \<not> local_exec cs\<rparr>),
                                remote_execution_settings := Some res\<rparr>)\<rparr>))"
proof -
  have unfold: "execute_workflow out executor es_opt res_opt d =
      (case check_executor_settings cs es (resource_settings w1) s1 of
        (Inl e, rs2, s2) \<Rightarrow>
          (Inl e, put_workflow_api (dag_held d) s2 (w1\<lparr>resource_settings := rs2\<rparr>))
      | (Inr _, rs2, s2) \<Rightarrow>
          (case workflow_property out (w1\<lparr>resource_settings := rs2\<rparr>) of
             (Inl e, w3) \<Rightarrow>
               (Inl e, put_workflow_api (dag_held d) (call_out Logger_setup_logfile s2) w3)
           | (Inr wflow, w3) \<Rightarrow>
               (Inr (),
                put_workflow_api (dag_held d)
                  (call_out (Workflow_execute p) (call_out Logger_setup_logfile s2))
                  (w3\<lparr>workflow_store :=
                        Some (wflow\<lparr>execution_settings :=
                                      Some (es\<lparr>use_threads := use_threads es
                                                \<or> os_name out \<noteq> ''posix'' \<or> \<not> local_exec cs\<rparr>),
                                    remote_execution_settings := Some res\<rparr>)\<rparr>))))"
    using nf reg
    unfolding es_def res_def cs_def w1_def s1_def
    by (auto simp: execute_workflow_def get_plugin_def Let_def split: prod.splits sum.splits)
  obtain r rs2 s2 where chk: "check_executor_settings cs es (resource_settings w1) s1 = (r, rs2, s2)"
    using prod_cases3 by blast
  obtain b w3 where wp: "workflow_property out (w1\<lparr>resource_settings := rs2\<rparr>) = (b, w3)"
    by fastforce
  show thesis
  proof (cases r)
    case (Inl e)
    with chk unfold show ?thesis by (intro check_fails [of e rs2 s2]) simp_all
  next
    case (Inr u)
    show ?thesis
    proof (cases b)
      case (Inl e)
      with chk wp Inr unfold show ?thesis by (intro build_fails [of rs2 s2 e w3]) simp_all
    next
      case wf: (Inr wflow)
      with chk wp Inr unfold show ?thesis by (intro runs [of rs2 s2 wflow w3]) simp_all
    qed
  qed
qed

lemma setup_logger_calls:
  "calls (setup_logger a b s) = calls s @ (if keep_logger (output_settings s) then [] else [Setup_logger a b])"
  by (simp add: setup_logger_def call_out_def)

lemma check_executor_settings_calls:
  "check_executor_settings cs es rs s = (r, rs', s') \<Longrightarrow>
     calls s' = calls s \<or> calls s' = calls s @ [Shell_cleanup]"
  by (auto simp: check_executor_settings_def Let_def call_out_def split: if_splits option.splits)

lemma check_executor_settings_dry:
  "local_exec cs \<Longrightarrow> dryrun_exec cs \<or> touch_exec cs \<Longrightarrow> cores rs = None \<Longrightarrow>
     check_executor_settings cs es rs s = (Inr (), rs\<lparr>cores := Some 1\<rparr>, s)"
  by (auto simp: check_executor_settings_def Let_def)

lemma check_executor_settings_cores:
  "local_exec cs \<Longrightarrow> \<not> dryrun_exec cs \<Longrightarrow> \<not> touch_exec cs \<Longrightarrow> cores rs = None \<Longrightarrow>
     check_executor_settings cs es rs s = (Inl (ApiError Cores_have_to_be_specified), rs, s)"
  by (simp add: check_executor_settings_def)

lemma check_executor_settings_nodes:
  "\<not> local_exec cs \<Longrightarrow> nodes rs = None \<Longrightarrow>
     check_executor_settings cs es rs s = (Inl (ApiError Nodes_have_to_be_specified), rs, s)"
  by (simp add: check_executor_settings_def)

lemma check_executor_settings_non_local:
  "\<not> local_exec cs \<Longrightarrow> check_executor_settings cs es rs s = (r, rs', s') \<Longrightarrow> cores rs' = cores rs"
  by (auto simp: check_executor_settings_def Let_def split: if_splits option.splits)

lemma workflow_property_settings:
  "workflow_property out w = (b, w') \<Longrightarrow> resource_settings w' = resource_settings w"
  by (auto simp: workflow_property_def split: option.splits sum.splits)

lemma workflow_property_Inl:
  "workflow_property out w = (Inl e, w') \<Longrightarrow> built_workflow out = Inl e \<and> workflow_store w = None"
  by (auto simp: workflow_property_def split: option.splits sum.splits)

text \<open>
  Claim C9, as amended. \<^verbatim>\<open>execute_workflow\<close> checks its settings before it executes:
  whenever it raises, \<^verbatim>\<open>workflow.execute\<close> has not been called, and when it does not
  raise, \<^verbatim>\<open>workflow.execute\<close> is its last call. With \<^verbatim>\<open>immediate_submit\<close> set and
  \<^verbatim>\<open>notemp\<close> unset it raises \<^verbatim>\<open>ApiError\<close> before any executor is looked up (whatever the
  executor's name, nothing changed). For the plugin \<open>p\<close> of the executor: when \<open>p\<close> is
  local and neither dry-run nor touch and \<^verbatim>\<open>cores\<close> is unset, the call raises
  \<^verbatim>\<open>ApiError\<close>; when \<open>p\<close> is a local dry-run or touch executor and \<^verbatim>\<open>cores\<close> is unset,
  \<^verbatim>\<open>cores\<close> is 1 afterwards, no \<^verbatim>\<open>ApiError\<close> comes from the checks, and the call reaches
  \<^verbatim>\<open>workflow.execute\<close>; when \<open>p\<close> is not local (a dry-run or touch executor or not) it
  leaves \<^verbatim>\<open>cores\<close> as it is, and raises \<^verbatim>\<open>ApiError\<close> when \<^verbatim>\<open>nodes\<close> is unset.
\<close>

theorem execute_workflow_validates:
  assumes plugin: "get_plugin (get_executor_plugin_registry out) executor = Inr p"
  shows
   "(immediate_submit (case res_opt of None \<Rightarrow> default_RemoteExecutionSettings out | Some x \<Rightarrow> x)
       \<and> \<not> notemp (storage_settings (dag_workflow_api d)) \<longrightarrow>
       (\<forall>name. execute_workflow out name es_opt res_opt d
          = (Inl (ApiError Immediate_submit_needs_notemp), d)))
    \<and> (local_exec (common_settings p) \<and> \<not> dryrun_exec (common_settings p)
         \<and> \<not> touch_exec (common_settings p)
         \<and> cores (resource_settings (dag_workflow_api d)) = None \<longrightarrow>
       fst (execute_workflow out executor es_opt res_opt d)
         = Inl (ApiError
             (if immediate_submit (case res_opt of None \<Rightarrow> default_RemoteExecutionSettings out | Some x \<Rightarrow> x)
                 \<and> \<not> notemp (storage_settings (dag_workflow_api d))
              then Immediate_submit_needs_notemp else Cores_have_to_be_specified)))
    \<and> (local_exec (common_settings p)
         \<and> (dryrun_exec (common_settings p) \<or> touch_exec (common_settings p))
         \<and> cores (resource_settings (dag_workflow_api d)) = None
         \<and> \<not> (immediate_submit (case res_opt of None \<Rightarrow> default_RemoteExecutionSettings out | Some x \<Rightarrow> x)
                \<and> \<not> notemp (storage_settings (dag_workflow_api d))) \<longrightarrow>
       cores (resource_settings (dag_workflow_api (snd (execute_workflow out executor es_opt res_opt d))))
         = Some 1
       \<and> (\<forall>m. fst (execute_workflow out executor es_opt res_opt d) = Inl (ApiError m)
               \<longrightarrow> built_workflow out = Inl (ApiError m)
                   \<and> workflow_store (dag_workflow_api d) = None)
       \<and> (workflow_store (dag_workflow_api d) \<noteq> None \<longrightarrow>
            fst (execute_workflow out executor es_opt res_opt d) = Inr ()))
    \<and> (\<not> local_exec (common_settings p)
         \<and> nodes (resource_settings (dag_workflow_api d)) = None \<longrightarrow>
       fst (execute_workflow out executor es_opt res_opt d)
         = Inl (ApiError
             (if immediate_submit (case res_opt of None \<Rightarrow> default_RemoteExecutionSettings out | Some x \<Rightarrow> x)
                 \<and> \<not> notemp (storage_settings (dag_workflow_api d))
              then Immediate_submit_needs_notemp else Nodes_have_to_be_specified)))
    \<and> (\<not> local_exec (common_settings p) \<longrightarrow>
       cores (resource_settings (dag_workflow_api (snd (execute_workflow out executor es_opt res_opt d))))
         = cores (resource_settings (dag_workflow_api d)))
    \<and> (\<forall>e. fst (execute_workflow out executor es_opt res_opt d) = Inl e \<longrightarrow>
         (\<exists>cs. calls (dag_snakemake_api (snd (execute_workflow out executor es_opt res_opt d)))
                 = calls (dag_snakemake_api d) @ cs
               \<and> (\<forall>q. Workflow_execute q \<notin> set cs)))
    \<and> (fst (execute_workflow out executor es_opt res_opt d) = Inr () \<longrightarrow>
         (\<exists>cs. calls (dag_snakemake_api (snd (execute_workflow out executor es_opt res_opt d)))
                 = calls (dag_snakemake_api d) @ cs @ [Workflow_execute p]
               \<and> (\<forall>q. Workflow_execute q \<notin> set cs)))"
proof -
  let ?es = "case es_opt of None \<Rightarrow> default_ExecutionSettings out | Some x \<Rightarrow> x"
  let ?res = "case res_opt of None \<Rightarrow> default_RemoteExecutionSettings out | Some x \<Rightarrow> x"
  let ?first = "immediate_submit ?res \<and> \<not> notemp (storage_settings (dag_workflow_api d))"
  let ?cs = "common_settings p"
  let ?w1 = "if implies_no_shared_fs ?cs then
               (dag_workflow_api d)\<lparr>storage_settings :=
                  (storage_settings (dag_workflow_api d))\<lparr>assume_shared_fs := False\<rparr>\<rparr>
             else dag_workflow_api d"
  let ?s1 = "setup_logger (dryrun_exec ?cs) (dryrun_exec ?cs) (dag_snakemake_api d)"
  let ?r = "execute_workflow out executor es_opt res_opt d"
  from plugin have reg: "get_executor_plugin_registry out executor = Some p"
    by (simp add: get_plugin_Inr)
  have rs1: "resource_settings ?w1 = resource_settings (dag_workflow_api d)"
    by simp
  have s1: "calls ?s1 = calls (dag_snakemake_api d)
      @ (if keep_logger (output_settings (dag_snakemake_api d)) then []
         else [Setup_logger (dryrun_exec ?cs) (dryrun_exec ?cs)])"
    by (rule setup_logger_calls)
  have A: "\<forall>name. execute_workflow out name es_opt res_opt d
          = (Inl (ApiError Immediate_submit_needs_notemp), d)" if ?first
    using that by (simp add: execute_workflow_immediate_submit)
  have B: "fst ?r = Inl (ApiError (if ?first then Immediate_submit_needs_notemp
                                   else Cores_have_to_be_specified))"
    if h: "local_exec ?cs \<and> \<not> dryrun_exec ?cs \<and> \<not> touch_exec ?cs
        \<and> cores (resource_settings (dag_workflow_api d)) = None"
  proof (cases ?first)
    case True
    then show ?thesis by (simp add: execute_workflow_immediate_submit)
  next
    case False
    from h rs1 have chk: "check_executor_settings ?cs ?es (resource_settings ?w1) ?s1
        = (Inl (ApiError Cores_have_to_be_specified), resource_settings ?w1, ?s1)"
      by (intro check_executor_settings_cores) simp_all
    from False reg show ?thesis
      by (cases rule: execute_workflow_cases [where es_opt = es_opt]) (use chk False in simp_all)
  qed
  have D: "fst ?r = Inl (ApiError (if ?first then Immediate_submit_needs_notemp
                                   else Nodes_have_to_be_specified))"
    if h: "\<not> local_exec ?cs \<and> nodes (resource_settings (dag_workflow_api d)) = None"
  proof (cases ?first)
    case True
    then show ?thesis by (simp add: execute_workflow_immediate_submit)
  next
    case False
    from h rs1 have chk: "check_executor_settings ?cs ?es (resource_settings ?w1) ?s1
        = (Inl (ApiError Nodes_have_to_be_specified), resource_settings ?w1, ?s1)"
      by (intro check_executor_settings_nodes) simp_all
    from False reg show ?thesis
      by (cases rule: execute_workflow_cases [where es_opt = es_opt]) (use chk False in simp_all)
  qed
  have C: "cores (resource_settings (dag_workflow_api (snd ?r))) = Some 1
       \<and> (\<forall>m. fst ?r = Inl (ApiError m)
               \<longrightarrow> built_workflow out = Inl (ApiError m)
                   \<and> workflow_store (dag_workflow_api d) = None)
       \<and> (workflow_store (dag_workflow_api d) \<noteq> None \<longrightarrow> fst ?r = Inr ())"
    if h: "local_exec ?cs \<and> (dryrun_exec ?cs \<or> touch_exec ?cs)
        \<and> cores (resource_settings (dag_workflow_api d)) = None \<and> \<not> ?first"
  proof -
    from h have nf: "\<not> ?first" by blast
    from h rs1 have chk: "check_executor_settings ?cs ?es (resource_settings ?w1) ?s1
        = (Inr (), (resource_settings ?w1)\<lparr>cores := Some 1\<rparr>, ?s1)"
      by (intro check_executor_settings_dry) simp_all
    have store: "workflow_store (?w1\<lparr>resource_settings := rs\<rparr>) = workflow_store (dag_workflow_api d)"
      for rs by simp
    from nf reg show ?thesis
    proof (cases rule: execute_workflow_cases [where es_opt = es_opt])
      case (check_fails e rs2 s2)
      with chk show ?thesis by simp
    next
      case (build_fails e rs2 s2 w3)
      from build_fails(1) chk have rs2: "cores rs2 = Some 1" by auto
      from workflow_property_settings [OF build_fails(2)] workflow_property_Inl [OF build_fails(2)]
        rs2 store [of rs2] build_fails(3)
      show ?thesis by (simp add: put_workflow_api_simps)
    next
      case (runs rs2 s2 wflow w3)
      from runs(1) chk have rs2: "cores rs2 = Some 1" by auto
      from workflow_property_settings [OF runs(2)] rs2 runs(3)
      show ?thesis by (simp add: put_workflow_api_simps)
    qed
  qed
  have D': "cores (resource_settings (dag_workflow_api (snd ?r)))
         = cores (resource_settings (dag_workflow_api d))"
    if h: "\<not> local_exec ?cs"
  proof (cases ?first)
    case True
    then show ?thesis by (simp add: execute_workflow_immediate_submit)
  next
    case False
    note keep = check_executor_settings_non_local [OF h]
    from False reg show ?thesis
    proof (cases rule: execute_workflow_cases [where es_opt = es_opt])
      case (check_fails e rs2 s2)
      from keep [OF check_fails(1)] rs1 check_fails(2)
      show ?thesis by (simp add: put_workflow_api_simps)
    next
      case (build_fails e rs2 s2 w3)
      from keep [OF build_fails(1)] rs1 workflow_property_settings [OF build_fails(2)]
        build_fails(3)
      show ?thesis by (simp add: put_workflow_api_simps)
    next
      case (runs rs2 s2 wflow w3)
      from keep [OF runs(1)] rs1 workflow_property_settings [OF runs(2)] runs(3)
      show ?thesis by (simp add: put_workflow_api_simps)
    qed
  qed
  have E: "\<exists>cs. calls (dag_snakemake_api (snd ?r)) = calls (dag_snakemake_api d) @ cs
               \<and> (\<forall>q. Workflow_execute q \<notin> set cs)"
    if err: "fst ?r = Inl e" for e
  proof (cases ?first)
    case True
    then have "calls (dag_snakemake_api (snd ?r)) = calls (dag_snakemake_api d) @ []"
      by (simp add: execute_workflow_immediate_submit)
    then show ?thesis by (intro exI [of _ "[]"]) simp
  next
    case False
    from False reg show ?thesis
    proof (cases rule: execute_workflow_cases [where es_opt = es_opt])
      case (check_fails e' rs2 s2)
      from check_executor_settings_calls [OF check_fails(1)] s1 check_fails(2)
      show ?thesis by (auto simp: put_workflow_api_simps)
    next
      case (build_fails e' rs2 s2 w3)
      from check_executor_settings_calls [OF build_fails(1)] s1 build_fails(3)
      show ?thesis by (auto simp: put_workflow_api_simps call_out_def)
    next
      case (runs rs2 s2 wflow w3)
      with err show ?thesis by simp
    qed
  qed
  have F: "\<exists>cs. calls (dag_snakemake_api (snd ?r))
                 = calls (dag_snakemake_api d) @ cs @ [Workflow_execute p]
               \<and> (\<forall>q. Workflow_execute q \<notin> set cs)"
    if ok: "fst ?r = Inr ()"
  proof -
    have nf: "\<not> ?first"
    proof
      assume ?first
      then have "fst ?r = Inl (ApiError Immediate_submit_needs_notemp)"
        by (simp add: execute_workflow_immediate_submit)
      with ok show False by simp
    qed
    from nf reg show ?thesis
    proof (cases rule: execute_workflow_cases [where es_opt = es_opt])
      case (check_fails e' rs2 s2)
      with ok show ?thesis by simp
    next
      case (build_fails e' rs2 s2 w3)
      with ok show ?thesis by simp
    next
      case (runs rs2 s2 wflow w3)
      from check_executor_settings_calls [OF runs(1)] s1 runs(3)
      show ?thesis by (auto simp: put_workflow_api_simps call_out_def)
    qed
  qed
  from A B C D D' E F show ?thesis by blast
qed

text \<open>The concrete \<^verbatim>\<open>DAGApi\<close> is the one that the API builds, and leaving the \<^verbatim>\<open>with\<close>
  statement after \<^verbatim>\<open>dag\<close> changes back the working directory of the workflow object
  too.\<close>

lemma example_dag_built:
  "example_workflow [''snakefile''] \<lparr>cores = c, nodes = n, default_resources = None\<rparr> None
       (enter example_api)
     = (Inr (example_workflow_api c n),
        (dag_snakemake_api (example_dag c n))\<lparr>workflow_api := Some (example_workflow_api c n)\<rparr>)"
  "dag example_outside True
       ((dag_snakemake_api (example_dag c n))\<lparr>workflow_api := Some (example_workflow_api c n)\<rparr>)
       (example_workflow_api c n)
     = Inr (example_dag c n)"
  "calls (exit_ctx (dag_snakemake_api (example_dag c n)))
     = [Setup_logger False False, Workdir_change_to None, Logger_cleanup, Workdir_change_back,
        Workflow_workdir_change_back]"
  by (simp_all add: example_workflow_def workflow_def check_is_in_context_def enter_def
      example_api_def new_SnakemakeApi_def resolve_snakefile_def new_WorkflowApi_def
      WorkflowApi_check_def Let_def setup_logger_def call_out_def example_dag_def
      example_workflow_api_def dag_def workflow_property_def example_outside_def
      put_workflow_api_def example_workflow_object_def exit_ctx_def cleanup_def)

lemma example_registry:
  "get_plugin (get_executor_plugin_registry example_outside) ''local''
     = Inr (example_plugin ''local'' True False False)"
  "get_plugin (get_executor_plugin_registry example_outside) ''dryrun''
     = Inr (example_plugin ''dryrun'' True True False)"
  "get_plugin (get_executor_plugin_registry example_outside) ''touch''
     = Inr (example_plugin ''touch'' True False True)"
  "get_plugin (get_executor_plugin_registry example_outside) ''cluster''
     = Inr (example_plugin ''cluster'' False False False)"
  "get_plugin (get_executor_plugin_registry example_outside) ''cluster-dryrun''
     = Inr (example_plugin ''cluster-dryrun'' False True False)"
  by (simp_all add: get_plugin_def registry_lookup example_outside_def)

lemma example_kinds:
  "local_exec (common_settings (example_plugin m l d t)) = l"
  "dryrun_exec (common_settings (example_plugin m l d t)) = d"
  "touch_exec (common_settings (example_plugin m l d t)) = t"
  by (simp_all add: example_plugin_def)

lemma example_dag_fields:
  "cores (resource_settings (dag_workflow_api (example_dag c n))) = c"
  "nodes (resource_settings (dag_workflow_api (example_dag c n))) = n"
  "workflow_store (dag_workflow_api (example_dag c n)) \<noteq> None"
  "\<not> notemp (storage_settings (dag_workflow_api (example_dag c n)))"
  "calls (dag_snakemake_api (example_dag c n)) = [Setup_logger False False, Workdir_change_to None]"
  by (simp_all add: example_dag_def example_workflow_api_def)

lemma example_defaults:
  "\<not> immediate_submit (default_RemoteExecutionSettings example_outside)"
  by (simp add: example_outside_def)

text \<open>
  The four kinds of executor on the concrete \<^verbatim>\<open>DAGApi\<close> with \<^verbatim>\<open>cores\<close> and \<^verbatim>\<open>nodes\<close>
  unset: the local executor and the cluster executor are refused and \<^verbatim>\<open>workflow.execute\<close>
  is not called, the dry-run and the touch executor run with one core; and
  \<^verbatim>\<open>immediate_submit\<close> without \<^verbatim>\<open>notemp\<close> is refused for a name that no plugin has.
\<close>

theorem execute_workflow_validates_witness:
  "execute_workflow example_outside ''no such executor'' None (Some \<lparr>immediate_submit = True\<rparr>)
       (example_dag None None)
     = (Inl (ApiError Immediate_submit_needs_notemp), example_dag None None)
   \<and> fst (execute_workflow example_outside ''local'' None None (example_dag None None))
     = Inl (ApiError Cores_have_to_be_specified)
   \<and> calls (dag_snakemake_api (snd
        (execute_workflow example_outside ''local'' None None (example_dag None None))))
     = [Setup_logger False False, Workdir_change_to None, Setup_logger False False]
   \<and> cores (resource_settings (dag_workflow_api (snd
        (execute_workflow example_outside ''dryrun'' None None (example_dag None None)))))
     = Some 1
   \<and> fst (execute_workflow example_outside ''dryrun'' None None (example_dag None None)) = Inr ()
   \<and> calls (dag_snakemake_api (snd
        (execute_workflow example_outside ''dryrun'' None None (example_dag None None))))
     = [Setup_logger False False, Workdir_change_to None, Setup_logger True True,
        Logger_setup_logfile, Workflow_execute (example_plugin ''dryrun'' True True False)]
   \<and> fst (execute_workflow example_outside ''touch'' None None (example_dag None None)) = Inr ()
   \<and> fst (execute_workflow example_outside ''cluster'' None None (example_dag (Some 4) None))
     = Inl (ApiError Nodes_have_to_be_specified)
   \<and> cores (resource_settings (dag_workflow_api (snd
        (execute_workflow example_outside ''cluster'' None None (example_dag (Some 4) None)))))
     = Some 4"
proof -
  let ?d = "example_dag None None"
  let ?d4 = "example_dag (Some 4) None"
  note eval = execute_workflow_def Let_def get_plugin_def registry_lookup
    check_executor_settings_def workflow_property_def setup_logger_def call_out_def
    put_workflow_api_def example_outside_def example_dag_def example_workflow_api_def
    example_plugin_def example_workflow_object_def
  have first: "immediate_submit (case Some \<lparr>immediate_submit = True\<rparr> of
        None \<Rightarrow> default_RemoteExecutionSettings example_outside | Some x \<Rightarrow> x)
      \<and> \<not> notemp (storage_settings (dag_workflow_api ?d))"
    by (simp add: example_dag_fields)
  from execute_workflow_validates [OF example_registry(1), of "Some \<lparr>immediate_submit = True\<rparr>" ?d None]
    first
  have 1: "execute_workflow example_outside ''no such executor'' None
      (Some \<lparr>immediate_submit = True\<rparr>) ?d = (Inl (ApiError Immediate_submit_needs_notemp), ?d)"
    by blast
  note local = execute_workflow_validates [OF example_registry(1), of None ?d None]
  from local have 2: "fst (execute_workflow example_outside ''local'' None None ?d)
      = Inl (ApiError Cores_have_to_be_specified)"
    by (simp add: example_kinds example_dag_fields example_defaults)
  have 3: "calls (dag_snakemake_api (snd (execute_workflow example_outside ''local'' None None ?d)))
      = [Setup_logger False False, Workdir_change_to None, Setup_logger False False]"
    by (simp add: eval)
  note dry = execute_workflow_validates [OF example_registry(2), of None ?d None]
  from dry have 4: "cores (resource_settings (dag_workflow_api (snd
        (execute_workflow example_outside ''dryrun'' None None ?d)))) = Some 1
      \<and> fst (execute_workflow example_outside ''dryrun'' None None ?d) = Inr ()"
    by (simp add: example_kinds example_dag_fields example_defaults)
  have 5: "calls (dag_snakemake_api (snd (execute_workflow example_outside ''dryrun'' None None ?d)))
      = [Setup_logger False False, Workdir_change_to None, Setup_logger True True,
         Logger_setup_logfile, Workflow_execute (example_plugin ''dryrun'' True True False)]"
    by (simp add: eval)
  from execute_workflow_validates [OF example_registry(3), of None ?d None]
  have 6: "fst (execute_workflow example_outside ''touch'' None None ?d) = Inr ()"
    by (simp add: example_kinds example_dag_fields example_defaults)
  from execute_workflow_validates [OF example_registry(4), of None ?d4 None]
  have 7: "fst (execute_workflow example_outside ''cluster'' None None ?d4)
      = Inl (ApiError Nodes_have_to_be_specified)
    \<and> cores (resource_settings (dag_workflow_api (snd
        (execute_workflow example_outside ''cluster'' None None ?d4)))) = Some 4"
    by (simp add: example_kinds example_dag_fields example_defaults)
  from 1 2 3 4 5 6 7 show ?thesis by blast
qed

text \<open>
  Claim C9 as stated says that a dry-run or touch executor with \<^verbatim>\<open>cores\<close> unset gets
  \<^verbatim>\<open>cores\<close> set to 1 instead of a raise. The branch that does so is under
  \<^verbatim>\<open>local_exec\<close>: a dry-run plugin that is not local is checked as a remote executor, so
  with \<^verbatim>\<open>nodes\<close> unset the call raises \<^verbatim>\<open>ApiError\<close> and \<^verbatim>\<open>cores\<close> stays unset.
\<close>

theorem execute_workflow_non_local_dryrun:
  "get_plugin (get_executor_plugin_registry example_outside) ''cluster-dryrun''
     = Inr (example_plugin ''cluster-dryrun'' False True False)
   \<and> dryrun_exec (common_settings (example_plugin ''cluster-dryrun'' False True False))
   \<and> cores (resource_settings (dag_workflow_api (example_dag None None))) = None
   \<and> fst (execute_workflow example_outside ''cluster-dryrun'' None None (example_dag None None))
       = Inl (ApiError Nodes_have_to_be_specified)
   \<and> cores (resource_settings (dag_workflow_api (snd
        (execute_workflow example_outside ''cluster-dryrun'' None None (example_dag None None)))))
       = None"
  by (simp add: execute_workflow_def Let_def get_plugin_def registry_lookup
      check_executor_settings_def workflow_property_def setup_logger_def call_out_def
      put_workflow_api_def example_outside_def example_dag_def example_workflow_api_def
      example_plugin_def example_workflow_object_def)



section \<open>Properties of the core\<close>

subsection \<open>Match and resolve\<close>

lemma first_success_Some:
  "first_success f xs = Some y \<Longrightarrow> \<exists>x \<in> set xs. f x = Some y"
  by (induction xs) (auto split: option.splits)

lemma match_from_sound:
  "match_from pat b path = Some b' \<Longrightarrow>
     substitute pat b' = Inr path \<and> (\<forall>n v. map_of b n = Some v \<longrightarrow> map_of b' n = Some v)"
proof (induction pat arbitrary: b path)
  case Nil
  then show ?case by (simp split: if_splits)
next
  case (Cons seg segs)
  show ?case
  proof (cases seg)
    case (Lit l)
    with Cons.prems have pre: "take (length l) path = l"
      and rest: "match_from segs b (drop (length l) path) = Some b'"
      by (auto split: if_splits)
    have "l @ drop (length l) path = path"
      using pre append_take_drop_id [of "length l" path] by simp
    with Cons.IH [OF rest] Lit show ?thesis by simp
  next
    case (Wild n ok)
    show ?thesis
    proof (cases "map_of b n")
      case (Some v)
      with Cons.prems Wild have pre: "take (length v) path = v"
        and rest: "match_from segs b (drop (length v) path) = Some b'"
        by (auto split: if_splits)
      from Cons.IH [OF rest] have sub: "substitute segs b' = Inr (drop (length v) path)"
        and ext: "\<forall>n v. map_of b n = Some v \<longrightarrow> map_of b' n = Some v" by blast+
      from ext Some have "map_of b' n = Some v" by blast
      moreover have "v @ drop (length v) path = path"
        using pre append_take_drop_id [of "length v" path] by simp
      ultimately show ?thesis using sub ext Wild by simp
    next
      case None
      with Cons.prems Wild obtain k where
        rest: "match_from segs ((n, take k path) # b) (drop k path) = Some b'"
        by (auto dest!: first_success_Some split: if_splits)
      from Cons.IH [OF rest] have sub: "substitute segs b' = Inr (drop k path)"
        and ext: "\<forall>m v. map_of ((n, take k path) # b) m = Some v \<longrightarrow> map_of b' m = Some v"
        by blast+
      from ext have bound: "map_of b' n = Some (take k path)" by simp
      have "\<forall>m v. map_of b m = Some v \<longrightarrow> map_of b' m = Some v"
      proof (intro allI impI)
        fix m v assume m: "map_of b m = Some v"
        with None have "m \<noteq> n" by auto
        with m ext show "map_of b' m = Some v" by simp
      qed
      with sub bound Wild show ?thesis by simp
    qed
  qed
qed

lemma substitute_all_nth:
  "substitute_all ps b = Inr xs \<Longrightarrow>
     length xs = length ps \<and> (\<forall>i < length ps. substitute (ps ! i) b = Inr (xs ! i))"
proof (induction ps arbitrary: xs)
  case Nil
  then show ?case by simp
next
  case (Cons p ps)
  from Cons.prems obtain x ys where x: "substitute p b = Inr x"
    and ys: "substitute_all ps b = Inr ys" and xs: "xs = x # ys"
    by (auto split: sum.splits)
  from Cons.IH [OF ys] have len: "length ys = length ps"
    and nth: "\<forall>i < length ps. substitute (ps ! i) b = Inr (ys ! i)" by blast+
  have "substitute ((p # ps) ! i) b = Inr (xs ! i)" if "i < length (p # ps)" for i
    using that x nth xs by (cases i) simp_all
  with len xs show ?case by simp
qed

text \<open>
  Claim C5. Whenever \<^verbatim>\<open>Match(pattern, path)\<close> succeeds with a binding, substituting the
  binding back into the pattern gives the path again. For \<^verbatim>\<open>Resolve\<close> on a rule this
  means: the output that \<^verbatim>\<open>Resolve\<close> returns at the position of the pattern is the path,
  and for a rule with this pattern as its only pattern \<^verbatim>\<open>Resolve\<close> returns exactly the
  path.
\<close>

theorem match_resolve_round_trip:
  "(Match pat path = Inr b \<longrightarrow> substitute pat b = Inr path)
   \<and> (Match pat path = Inr b \<and> i < length (rule_outputs r) \<and> rule_outputs r ! i = pat
        \<and> Resolve r b = Inr (ins, outs) \<longrightarrow> outs ! i = path)
   \<and> (Match pat path = Inr b \<and> rule_inputs r = [] \<and> rule_outputs r = [pat] \<longrightarrow>
        Resolve r b = Inr ([], [path]))"
proof -
  have sub: "substitute pat b = Inr path" if "Match pat path = Inr b"
  proof -
    from that have "match_from pat [] path = Some b"
      by (simp add: Match_def split: option.splits)
    then show ?thesis by (simp add: match_from_sound)
  qed
  have pos: "outs ! i = path"
    if h: "Match pat path = Inr b \<and> i < length (rule_outputs r) \<and> rule_outputs r ! i = pat
        \<and> Resolve r b = Inr (ins, outs)"
  proof -
    from h have "substitute_all (rule_outputs r) b = Inr outs"
      by (auto simp: Resolve_def split: sum.splits)
    with h have "substitute pat b = Inr (outs ! i)"
      using substitute_all_nth [of "rule_outputs r" b outs] by auto
    with sub h show ?thesis by simp
  qed
  have single: "Resolve r b = Inr ([], [path])"
    if "Match pat path = Inr b \<and> rule_inputs r = [] \<and> rule_outputs r = [pat]"
    using that sub by (simp add: Resolve_def)
  from sub pos single show ?thesis by blast
qed

lemma exPattern_match:
  "Match exPattern ''data/a.b.txt'' = Inr [(''ext'', ''b.txt''), (''sample'', ''a'')]"
  by (simp add: Match_def exPattern_def default_constraint_def upt_rec)

text \<open>The pattern \<^verbatim>\<open>data/{sample}.{ext}\<close> on the path \<^verbatim>\<open>data/a.b.txt\<close>: the leftmost
  wildcard takes the shortest value.\<close>

theorem match_resolve_round_trip_witness:
  "Match exPattern ''data/a.b.txt'' = Inr [(''ext'', ''b.txt''), (''sample'', ''a'')]
   \<and> substitute exPattern [(''ext'', ''b.txt''), (''sample'', ''a'')] = Inr ''data/a.b.txt''
   \<and> Resolve exRule [(''ext'', ''b.txt''), (''sample'', ''a'')]
       = Inr ([''raw/a''], [''data/a.b.txt''])
   \<and> Resolve (exRule\<lparr>rule_inputs := []\<rparr>) [(''ext'', ''b.txt''), (''sample'', ''a'')]
       = Inr ([], [''data/a.b.txt''])"
proof -
  let ?b = "[(''ext'', ''b.txt''), (''sample'', ''a'')]"
  note t = match_resolve_round_trip [of exPattern "''data/a.b.txt''" ?b 0 _ "[''raw/a'']"
      "[''data/a.b.txt'']"]
  have res: "Resolve exRule ?b = Inr ([''raw/a''], [''data/a.b.txt''])"
    by (simp add: Resolve_def exRule_def exPattern_def)
  have shape: "0 < length (rule_outputs exRule) \<and> rule_outputs exRule ! 0 = exPattern"
    "rule_inputs (exRule\<lparr>rule_inputs := []\<rparr>) = []
     \<and> rule_outputs (exRule\<lparr>rule_inputs := []\<rparr>) = [exPattern]"
    by (simp_all add: exRule_def)
  from t [of exRule] exPattern_match
  have 1: "substitute exPattern ?b = Inr ''data/a.b.txt''" by blast
  from t [of "exRule\<lparr>rule_inputs := []\<rparr>"] exPattern_match shape(2)
  have 2: "Resolve (exRule\<lparr>rule_inputs := []\<rparr>) ?b = Inr ([], [''data/a.b.txt''])" by blast
  from t [of exRule] exPattern_match shape(1) res
  have "[''data/a.b.txt''] ! 0 = ''data/a.b.txt''" by blast
  with exPattern_match 1 2 res show ?thesis by blast
qed

subsection \<open>Runs as chains of moves\<close>

lemma successively_invariant:
  assumes "successively R (x # xs)" and "I x" and "\<forall>s s'. I s \<longrightarrow> R s s' \<longrightarrow> I s'"
  shows "(\<forall>y \<in> set (x # xs). I y) \<and> successively (\<lambda>s s'. I s \<and> R s s') (x # xs)"
  using assms(1,2)
proof (induction xs arbitrary: x)
  case Nil
  then show ?case by simp
next
  case (Cons y ys)
  from Cons.prems have "R x y" and "successively R (y # ys)" by simp_all
  moreover from \<open>R x y\<close> Cons.prems(2) assms(3) have "I y" by blast
  ultimately show ?case using Cons.IH [of y] Cons.prems(2) by simp
qed

lemma successively_nth:
  "successively P xs \<Longrightarrow> Suc i < length xs \<Longrightarrow> P (xs ! i) (xs ! Suc i)"
proof (induction P xs arbitrary: i rule: successively.induct)
  case (3 P x y xs)
  then show ?case by (cases i) auto
qed simp_all

lemma admit_each_chain:
  "set js \<subseteq> set (jobs g) \<Longrightarrow> successively (atomic cfg g) (s # admit_each js s)"
proof (induction js arbitrary: s)
  case Nil
  show ?case by simp
next
  case (Cons j js)
  then have "atomic cfg g s (admit j s)" unfolding atomic_def by auto
  with Cons.IH [of "admit j s"] Cons.prems show ?case by simp
qed

lemma candidates_subset: "set (candidates cfg g s) \<subseteq> set (jobs g)"
  by (auto simp: candidates_def)

lemma schedule_trace_chain: "successively (atomic cfg g) (s # schedule_trace cfg g s)"
  using admit_each_chain [OF candidates_subset, of cfg g "mark_ready g s" cfg "mark_ready g s"]
  by (simp add: schedule_trace_def atomic_def)

lemma schedule_trace_nonempty: "schedule_trace cfg g s \<noteq> []"
  by (simp add: schedule_trace_def)

lemma event_trace_chain: "successively (atomic cfg g) (s # event_trace cfg g ev s)"
proof -
  have "atomic cfg g s (on_signal cfg g ev s)" unfolding atomic_def by blast
  with schedule_trace_chain [of cfg g "on_signal cfg g ev s"] show ?thesis
    by (simp add: event_trace_def)
qed

lemma successively_tl: "successively P (x # xs) \<Longrightarrow> successively P xs"
  by (cases xs) simp_all

lemma successively_link:
  assumes "successively P (x # xs)" and "xs \<noteq> []" and "successively P (last xs # ys)"
  shows "successively P (x # xs @ ys)"
proof -
  from assms(1) have "successively P (x # xs)" .
  moreover from assms(3) have "successively P ys" by (rule successively_tl)
  moreover from assms(2,3) have "ys = [] \<or> P (last (x # xs)) (hd ys)"
    by (cases ys) auto
  ultimately show ?thesis
    using successively_append_iff [of P "x # xs" ys] by simp
qed

lemma events_trace_chain: "successively (atomic cfg g) (s # events_trace cfg g evs s)"
proof (induction evs arbitrary: s)
  case Nil
  show ?case by simp
next
  case (Cons ev evs)
  have ne: "event_trace cfg g ev s \<noteq> []" by (simp add: event_trace_def)
  from successively_link [OF event_trace_chain ne Cons] show ?case by simp
qed

lemma Run_trace_chain: "successively (atomic cfg g) (Run_trace cfg g s0 evs)"
  using successively_link [OF schedule_trace_chain schedule_trace_nonempty events_trace_chain]
  by (simp add: Run_trace_def)

lemma Run_trace_hd: "Run_trace cfg g s0 evs = s0 # tl (Run_trace cfg g s0 evs)"
  by (simp add: Run_trace_def)

subsection \<open>Dependency order\<close>

lemma orderedI:
  assumes "\<And>a b. (a, b) \<in> set (edges g) \<Longrightarrow> status s b = Ready \<or> status s b = Running \<Longrightarrow>
    status s a = Completed"
  shows "ordered g s"
  using assms unfolding ordered_def by blast

lemma orderedD:
  "ordered g s \<Longrightarrow> (a, b) \<in> set (edges g) \<Longrightarrow> status s b = Ready \<or> status s b = Running \<Longrightarrow>
     status s a = Completed"
  unfolding ordered_def by blast

lemma ordered_initial: "ordered g (initial capacity uptodate)"
  by (rule orderedI) (simp add: initial_def split: if_splits)

lemma mark_ready_status:
  "status (mark_ready g s) k =
     (if status s k = Pending \<and> k \<in> set (map job_key (jobs g))
         \<and> list_all (\<lambda>a. status s a = Completed) (predecessors g k)
      then Ready else status s k)"
  by (simp add: mark_ready_def)

lemma predecessors_iff: "a \<in> set (predecessors g b) \<longleftrightarrow> (a, b) \<in> set (edges g)"
  by (force simp: predecessors_def)

lemma ordered_mark_ready:
  assumes "ordered g s"
  shows "ordered g (mark_ready g s)"
proof (rule orderedI)
  fix a b
  assume e: "(a, b) \<in> set (edges g)"
    and b: "status (mark_ready g s) b = Ready \<or> status (mark_ready g s) b = Running"
  have a: "status s a = Completed"
  proof (cases "status s b = Ready \<or> status s b = Running")
    case True
    with assms e show ?thesis by (rule orderedD)
  next
    case False
    with b have "list_all (\<lambda>a. status s a = Completed) (predecessors g b)"
      by (simp add: mark_ready_status split: if_splits)
    with e show ?thesis by (simp add: list_all_iff predecessors_iff)
  qed
  then show "status (mark_ready g s) a = Completed"
    by (simp add: mark_ready_status)
qed

lemma admit_status:
  "status (admit j s) k =
     (if status s (job_key j) = Ready \<and> fits j s \<and> k = job_key j then Running else status s k)"
  by (simp add: admit_def)

lemma ordered_admit:
  assumes "ordered g s"
  shows "ordered g (admit j s)"
proof (rule orderedI)
  fix a b
  assume e: "(a, b) \<in> set (edges g)"
    and b: "status (admit j s) b = Ready \<or> status (admit j s) b = Running"
  from b have "status s b = Ready \<or> status s b = Running"
    by (auto simp: admit_status split: if_splits)
  with assms e have a: "status s a = Completed" by (rule orderedD)
  then show "status (admit j s) a = Completed"
    by (auto simp: admit_status)
qed

lemma skip_dependents_status:
  "status (skip_dependents g k s) k' =
     (if (k, k') \<in> (set (edges g))\<^sup>+ \<and> (status s k' = Pending \<or> status s k' = Ready)
      then Skipped else status s k')"
  by (simp add: skip_dependents_def)

lemma ordered_skip_dependents:
  assumes "ordered g s"
  shows "ordered g (skip_dependents g k s)"
proof (rule orderedI)
  fix a b
  assume e: "(a, b) \<in> set (edges g)"
    and b: "status (skip_dependents g k s) b = Ready \<or> status (skip_dependents g k s) b = Running"
  from b have "status s b = Ready \<or> status s b = Running"
    by (auto simp: skip_dependents_status split: if_splits)
  with assms e have a: "status s a = Completed" by (rule orderedD)
  then show "status (skip_dependents g k s) a = Completed"
    by (simp add: skip_dependents_status)
qed

lemma halt_status:
  "status (halt g s) k =
     (if status s k = Pending \<or> status s k = Ready \<or> status s k = Running
      then Skipped else status s k)"
  by (simp add: halt_def)

lemma ordered_halt: "ordered g (halt g s)"
  by (rule orderedI) (auto simp: halt_status split: if_splits)

lemma ordered_update:
  assumes "ordered g s" and "status s k = Running" and "status s' = (status s)(k := x)"
  shows "ordered g s'"
proof (rule orderedI)
  fix a b
  assume e: "(a, b) \<in> set (edges g)" and b: "status s' b = Ready \<or> status s' b = Running"
  from b assms(2,3) have "status s b = Ready \<or> status s b = Running"
    by (cases "b = k") simp_all
  with assms(1) e have a: "status s a = Completed" by (rule orderedD)
  with assms(2) have "a \<noteq> k" by auto
  with a assms(3) show "status s' a = Completed" by simp
qed

lemma ordered_on_signal:
  assumes "ordered g s"
  shows "ordered g (on_signal cfg g ev s)"
proof -
  obtain k out where ev: "ev = (k, out)" by (cases ev)
  show ?thesis
  proof (cases "find (\<lambda>j. job_key j = k) (jobs g)")
    case None
    with assms ev show ?thesis by (simp add: on_signal_def)
  next
    case (Some j)
    show ?thesis
    proof (cases "status s k = Running")
      case False
      with assms ev Some show ?thesis by (simp add: on_signal_def)
    next
      case True
      note upd = ordered_update [OF assms True]
      show ?thesis
      proof (cases out)
        case Success
        with ev Some True show ?thesis
          by (simp add: on_signal_def Let_def upd)
      next
        case Failure
        show ?thesis
        proof (cases "Suc (attempts s k) < max_attempts cfg")
          case retry: True
          with ev Some True Failure show ?thesis
            by (simp add: on_signal_def Let_def upd)
        next
          case final: False
          let ?s2 = "s\<lparr>available := (\<lambda>r. available s r + amount (job_demand j) r),
                      status := (status s)(k := Failed),
                      attempts := (attempts s)(k := Suc (attempts s k))\<rparr>"
          have s2: "ordered g ?s2" by (rule upd) simp
          have "on_signal cfg g ev s = (if strict_halt cfg then halt g ?s2 else skip_dependents g k ?s2)"
            using ev Some True Failure final by (simp add: on_signal_def Let_def)
          with s2 show ?thesis
            by (simp add: ordered_halt ordered_skip_dependents)
        qed
      qed
    qed
  qed
qed

lemma ordered_atomic: "ordered g s \<Longrightarrow> atomic cfg g s s' \<Longrightarrow> ordered g s'"
  unfolding atomic_def
  by (elim disjE exE bexE) (simp_all add: ordered_mark_ready ordered_admit ordered_on_signal)

lemma on_signal_not_started:
  "status s b \<noteq> Running \<Longrightarrow> status (on_signal cfg g ev s) b \<noteq> Running"
proof -
  obtain k out where ev: "ev = (k, out)" by (cases ev)
  assume "status s b \<noteq> Running"
  then show ?thesis
    unfolding ev on_signal_def
    by (simp add: Let_def halt_status skip_dependents_status
        split: option.splits outcome.splits)
qed

lemma starts_after_atomic:
  assumes "ordered g s" and "atomic cfg g s s'"
  shows "starts_after g s s'"
  unfolding starts_after_def
proof (intro allI impI)
  fix a b
  assume e: "(a, b) \<in> set (edges g)" and pre: "status s b \<noteq> Running"
    and post: "status s' b = Running"
  from assms(2) consider "s' = mark_ready g s" | j where "s' = admit j s"
    | ev where "s' = on_signal cfg g ev s"
    unfolding atomic_def by blast
  then show "status s a = Completed \<and> status s' a = Completed"
  proof cases
    case 1
    with pre post show ?thesis by (simp add: mark_ready_status split: if_splits)
  next
    case (2 j)
    with pre post have "status s b = Ready"
      by (simp add: admit_status split: if_splits)
    with assms(1) e have "status s a = Completed" by (simp add: orderedD)
    with 2 show ?thesis by (auto simp: admit_status)
  next
    case (3 ev)
    with pre post on_signal_not_started [of s b cfg g ev] show ?thesis by simp
  qed
qed

text \<open>
  Claim C4. In every run, whatever the executor signals: a job is running only while all
  its predecessors are completed, and at the step at which a job \<open>J2\<close> turns to
  \<^verbatim>\<open>running\<close> every predecessor \<open>J1\<close> (an edge from \<open>J1\<close> to \<open>J2\<close>) is \<^verbatim>\<open>completed\<close>,
  in the state before the step and in the state after it. So no successor is dispatched
  before all its predecessors have completed.
\<close>

theorem dependency_ordering:
  "(\<forall>s \<in> set (Run_trace cfg g (initial capacity uptodate) evs).
      \<forall>a b. (a, b) \<in> set (edges g) \<longrightarrow> status s b = Running \<longrightarrow> status s a = Completed)
   \<and> (\<forall>i a b. Suc i < length (Run_trace cfg g (initial capacity uptodate) evs) \<longrightarrow>
        (a, b) \<in> set (edges g) \<longrightarrow>
        status (Run_trace cfg g (initial capacity uptodate) evs ! i) b \<noteq> Running \<longrightarrow>
        status (Run_trace cfg g (initial capacity uptodate) evs ! Suc i) b = Running \<longrightarrow>
        status (Run_trace cfg g (initial capacity uptodate) evs ! i) a = Completed
        \<and> status (Run_trace cfg g (initial capacity uptodate) evs ! Suc i) a = Completed)"
proof -
  let ?tr = "Run_trace cfg g (initial capacity uptodate) evs"
  have chain: "successively (atomic cfg g) (initial capacity uptodate # tl ?tr)"
    using Run_trace_chain [of cfg g "initial capacity uptodate" evs] Run_trace_hd [of cfg g _ evs]
    by simp
  have pres: "\<forall>s s'. ordered g s \<longrightarrow> atomic cfg g s s' \<longrightarrow> ordered g s'"
    using ordered_atomic by blast
  have "(\<forall>s \<in> set (initial capacity uptodate # tl ?tr). ordered g s)
      \<and> successively (\<lambda>s s'. ordered g s \<and> atomic cfg g s s') (initial capacity uptodate # tl ?tr)"
    by (rule successively_invariant [OF chain ordered_initial pres])
  then have inv: "\<forall>s \<in> set ?tr. ordered g s"
    and steps: "successively (\<lambda>s s'. ordered g s \<and> atomic cfg g s s') ?tr"
    unfolding Run_trace_hd [symmetric] by blast+
  from steps have "successively (starts_after g) ?tr"
    by (rule successively_mono) (blast intro: starts_after_atomic)
  then have "starts_after g (?tr ! i) (?tr ! Suc i)" if "Suc i < length ?tr" for i
    using that by (rule successively_nth)
  with inv show ?thesis
    unfolding starts_after_def ordered_def by blast
qed


subsection \<open>Resource pool\<close>

lemma running_demand_cong:
  "(\<And>j. j \<in> set (jobs g) \<Longrightarrow>
      (status s' (job_key j) = Running) = (status s (job_key j) = Running)) \<Longrightarrow>
   running_demand g s' r = running_demand g s r"
  unfolding running_demand_def
  by (rule arg_cong [where f = "\<lambda>xs. sum_list (map _ xs)"]) (rule filter_cong, simp_all)

lemma running_list_update:
  assumes "distinct (map job_key js)" and "j \<in> set js"
    and "st' (job_key j) = x" and "\<And>k. k \<noteq> job_key j \<Longrightarrow> st' k = st k"
  shows "sum_list (map f (filter (\<lambda>i. st' (job_key i) = Running) js))
           + (if st (job_key j) = Running then f j else 0)
         = sum_list (map f (filter (\<lambda>i. st (job_key i) = Running) js))
           + (if x = Running then f j else (0::nat))"
  using assms(1,2)
proof (induction js)
  case Nil
  then show ?case by simp
next
  case (Cons i js)
  show ?case
  proof (cases "i = j")
    case True
    with Cons.prems have "job_key j \<notin> job_key ` set js" by simp
    then have "\<forall>i \<in> set js. job_key i \<noteq> job_key j" by (metis image_eqI)
    then have "filter (\<lambda>i. st' (job_key i) = Running) js
        = filter (\<lambda>i. st (job_key i) = Running) js"
      by (intro filter_cong refl) (simp add: assms(4))
    with True assms(3) show ?thesis by simp
  next
    case False
    with Cons.prems have j: "j \<in> set js" and ne: "job_key i \<noteq> job_key j"
      and d: "distinct (map job_key js)" by auto
    from ne have "st' (job_key i) = st (job_key i)" by (rule assms(4))
    with Cons.IH [OF d j] show ?thesis by (simp split: if_splits)
  qed
qed

lemma running_demand_update:
  assumes "well_formed g" and "j \<in> set (jobs g)" and "status s' = (status s)(job_key j := x)"
  shows "running_demand g s' r + (if status s (job_key j) = Running then amount (job_demand j) r else 0)
         = running_demand g s r + (if x = Running then amount (job_demand j) r else 0)"
proof -
  from assms(1) have d: "distinct (map job_key (jobs g))" by (simp add: well_formed_def)
  from assms(3) have x: "status s' (job_key j) = x"
    and o: "\<And>k. k \<noteq> job_key j \<Longrightarrow> status s' k = status s k" by simp_all
  have "sum_list (map (\<lambda>j. amount (job_demand j) r)
            (filter (\<lambda>i. status s' (job_key i) = Running) (jobs g)))
          + (if status s (job_key j) = Running then amount (job_demand j) r else 0)
        = sum_list (map (\<lambda>j. amount (job_demand j) r)
            (filter (\<lambda>i. status s (job_key i) = Running) (jobs g)))
          + (if x = Running then amount (job_demand j) r else 0)"
    using d assms(2) x o by (rule running_list_update)
  then show ?thesis by (simp add: running_demand_def)
qed

lemma fits_all: "fits j s \<Longrightarrow> amount (job_demand j) r \<le> available s r"
proof (cases "map_of (job_demand j) r")
  case None
  then show ?thesis by (simp add: amount_def)
next
  case (Some n)
  then have "r \<in> fst ` set (job_demand j)"
    using map_of_eq_None_iff [of "job_demand j" r] by simp
  moreover assume "fits j s"
  ultimately show ?thesis by (auto simp: fits_def list_all_iff)
qed

lemma pool_ok_initial: "pool_ok g capacity (initial capacity uptodate)"
proof -
  have "filter (\<lambda>j. status (initial capacity uptodate) (job_key j) = Running) (jobs g) = []"
    by (simp add: initial_def)
  then show ?thesis by (simp add: pool_ok_def running_demand_def initial_def)
qed

lemma pool_ok_mark_ready:
  assumes "pool_ok g capacity s"
  shows "pool_ok g capacity (mark_ready g s)"
proof -
  have "running_demand g (mark_ready g s) r = running_demand g s r" for r
    by (rule running_demand_cong) (simp add: mark_ready_status)
  moreover have "available (mark_ready g s) = available s" by (simp add: mark_ready_def)
  ultimately show ?thesis using assms by (simp add: pool_ok_def)
qed

lemma pool_ok_admit:
  assumes "pool_ok g capacity s" and "well_formed g" and "j \<in> set (jobs g)"
  shows "pool_ok g capacity (admit j s)"
proof (cases "status s (job_key j) = Ready \<and> fits j s")
  case False
  then have "admit j s = s" by (auto simp: admit_def)
  with assms(1) show ?thesis by simp
next
  case True
  have st: "status (admit j s) = (status s)(job_key j := Running)"
    using True by (simp add: admit_def)
  have av: "available (admit j s) r = available s r - amount (job_demand j) r" for r
    using True by (simp add: admit_def)
  show ?thesis
    unfolding pool_ok_def
  proof
    fix r
    from running_demand_update [OF assms(2,3) st, of r] True
    have "running_demand g (admit j s) r = running_demand g s r + amount (job_demand j) r"
      by simp
    moreover from True have "amount (job_demand j) r \<le> available s r" by (simp add: fits_all)
    moreover from assms(1) have "running_demand g s r + available s r \<le> amount capacity r"
      by (simp add: pool_ok_def)
    ultimately show "running_demand g (admit j s) r + available (admit j s) r \<le> amount capacity r"
      by (simp add: av)
  qed
qed

lemma pool_ok_skip_dependents:
  assumes "pool_ok g capacity s"
  shows "pool_ok g capacity (skip_dependents g k s)"
proof -
  have "running_demand g (skip_dependents g k s) r = running_demand g s r" for r
    by (rule running_demand_cong) (auto simp: skip_dependents_status)
  moreover have "available (skip_dependents g k s) = available s" by (simp add: skip_dependents_def)
  ultimately show ?thesis using assms by (simp add: pool_ok_def)
qed

lemma pool_ok_halt:
  assumes "pool_ok g capacity s"
  shows "pool_ok g capacity (halt g s)"
proof -
  have "filter (\<lambda>j. status (halt g s) (job_key j) = Running) (jobs g) = []"
    by (simp add: halt_status)
  then have "running_demand g (halt g s) r = 0" for r
    by (simp add: running_demand_def)
  moreover have "available (halt g s) r = available s r + running_demand g s r" for r
    by (simp add: halt_def)
  ultimately show ?thesis using assms by (simp add: pool_ok_def add.commute)
qed

lemma find_job: "find (\<lambda>j. job_key j = k) js = Some j \<Longrightarrow> j \<in> set js \<and> job_key j = k"
  by (induction js) (auto split: if_splits)

lemma pool_ok_finish:
  assumes "pool_ok g capacity s" and "well_formed g" and "j \<in> set (jobs g)"
    and "status s (job_key j) = Running" and "x \<noteq> Running"
    and "status s' = (status s)(job_key j := x)"
    and "available s' = (\<lambda>r. available s r + amount (job_demand j) r)"
  shows "pool_ok g capacity s'"
  unfolding pool_ok_def
proof
  fix r
  from running_demand_update [OF assms(2,3,6), of r] assms(4,5)
  have "running_demand g s' r + amount (job_demand j) r = running_demand g s r" by simp
  moreover from assms(1) have "running_demand g s r + available s r \<le> amount capacity r"
    by (simp add: pool_ok_def)
  ultimately show "running_demand g s' r + available s' r \<le> amount capacity r"
    by (simp add: assms(7))
qed

lemma pool_ok_on_signal:
  assumes "pool_ok g capacity s" and "well_formed g"
  shows "pool_ok g capacity (on_signal cfg g ev s)"
proof -
  obtain k out where ev: "ev = (k, out)" by (cases ev)
  show ?thesis
  proof (cases "find (\<lambda>j. job_key j = k) (jobs g)")
    case None
    with assms ev show ?thesis by (simp add: on_signal_def)
  next
    case (Some j)
    then have j: "j \<in> set (jobs g)" and k: "job_key j = k" by (auto dest: find_job)
    show ?thesis
    proof (cases "status s k = Running")
      case False
      with assms ev Some show ?thesis by (simp add: on_signal_def)
    next
      case True
      have fin: "pool_ok g capacity s'"
        if "x \<noteq> Running" "status s' = (status s)(k := x)"
          "available s' = (\<lambda>r. available s r + amount (job_demand j) r)" for s' x
        using pool_ok_finish [OF assms j, of x s'] True k that by simp
      show ?thesis
      proof (cases out)
        case Success
        with ev Some True show ?thesis
          by (simp add: on_signal_def Let_def fin [of Completed])
      next
        case Failure
        show ?thesis
        proof (cases "Suc (attempts s k) < max_attempts cfg")
          case retry: True
          with ev Some True Failure show ?thesis
            by (simp add: on_signal_def Let_def fin [of Ready])
        next
          case final: False
          let ?s2 = "s\<lparr>available := (\<lambda>r. available s r + amount (job_demand j) r),
                      status := (status s)(k := Failed),
                      attempts := (attempts s)(k := Suc (attempts s k))\<rparr>"
          have s2: "pool_ok g capacity ?s2" by (rule fin [of Failed]) simp_all
          have "on_signal cfg g ev s = (if strict_halt cfg then halt g ?s2 else skip_dependents g k ?s2)"
            using ev Some True Failure final by (simp add: on_signal_def Let_def)
          with s2 show ?thesis
            by (simp add: pool_ok_halt pool_ok_skip_dependents)
        qed
      qed
    qed
  qed
qed

lemma pool_ok_atomic:
  "well_formed g \<Longrightarrow> pool_ok g capacity s \<Longrightarrow> atomic cfg g s s' \<Longrightarrow> pool_ok g capacity s'"
  unfolding atomic_def
  by (elim disjE exE bexE) (simp_all add: pool_ok_mark_ready pool_ok_admit pool_ok_on_signal)

text \<open>
  Claim C3. In every state of every run of a well-formed job graph, for each resource, the
  sum of the demands of the running jobs is at most the declared total capacity. And a
  graph with a job whose demand for some resource exceeds the total capacity is rejected
  with \<^verbatim>\<open>ResourceUnsatisfiable\<close> before the run starts, so nothing is dispatched.
\<close>

theorem resource_invariant:
  "(well_formed g \<longrightarrow>
      (\<forall>s \<in> set (Run_trace cfg g (initial capacity uptodate) evs).
         \<forall>r. running_demand g s r \<le> amount capacity r))
   \<and> (j \<in> set (jobs g) \<and> amount capacity r < amount (job_demand j) r \<longrightarrow>
        Execute cfg capacity uptodate g evs = Inl ResourceUnsatisfiable)"
proof (intro conjI impI)
  let ?s0 = "initial capacity uptodate"
  let ?tr = "Run_trace cfg g ?s0 evs"
  assume wf: "well_formed g"
  have chain: "successively (atomic cfg g) (?s0 # tl ?tr)"
    using Run_trace_chain [of cfg g ?s0 evs] Run_trace_hd [of cfg g _ evs] by simp
  have pres: "\<forall>s s'. pool_ok g capacity s \<longrightarrow> atomic cfg g s s' \<longrightarrow> pool_ok g capacity s'"
    using pool_ok_atomic [OF wf] by blast
  have "(\<forall>s \<in> set (?s0 # tl ?tr). pool_ok g capacity s)
      \<and> successively (\<lambda>s s'. pool_ok g capacity s \<and> atomic cfg g s s') (?s0 # tl ?tr)"
    by (rule successively_invariant [OF chain pool_ok_initial pres])
  then have "\<forall>s \<in> set ?tr. pool_ok g capacity s"
    unfolding Run_trace_hd [symmetric] by blast
  then show "\<forall>s \<in> set ?tr. \<forall>r. running_demand g s r \<le> amount capacity r"
    unfolding pool_ok_def by (meson add_leD1)
next
  assume h: "j \<in> set (jobs g) \<and> amount capacity r < amount (job_demand j) r"
  then have "map_of (job_demand j) r \<noteq> None"
    by (auto simp: amount_def split: option.splits)
  then have "r \<in> fst ` set (job_demand j)" by (simp add: map_of_eq_None_iff)
  with h have "unsatisfiable capacity j"
    by (auto simp: unsatisfiable_def list_ex_iff)
  with h have "list_ex (unsatisfiable capacity) (jobs g)" by (auto simp: list_ex_iff)
  then show "Execute cfg capacity uptodate g evs = Inl ResourceUnsatisfiable"
    by (simp add: Execute_def check_demands_def)
qed

subsection \<open>The concrete workflow\<close>

lemmas ex_defs = exTrace_def exEvents_def exG_def exA_def exB_def exC_def exCfg_def
  exStale_def Run_trace_def schedule_trace_def event_trace_def on_signal_def admit_def
  fits_def candidates_def mark_ready_def initial_def predecessors_def amount_def
  job_key_def Let_def

lemma exTrace_length: "length exTrace = 10"
  by (simp add: ex_defs)

lemma exG_well_formed: "well_formed exG"
  by (simp add: well_formed_def exG_def exA_def exB_def exC_def job_key_def)

lemma exG_edge: "(job_key exA, job_key exB) \<in> set (edges exG)"
  by (simp add: exG_def)

lemma exTrace_A_and_C_running:
  "status (exTrace ! 3) (job_key exA) = Running"
  "status (exTrace ! 3) (job_key exC) = Running"
  "running_demand exG (exTrace ! 3) ''cores'' = 3"
  by (simp_all add: ex_defs running_demand_def)

lemma exTrace_B_starts:
  "status (exTrace ! 6) (job_key exB) = Ready"
  "status (exTrace ! 8) (job_key exB) = Ready"
  "status (exTrace ! 9) (job_key exB) = Running"
  by (simp_all add: ex_defs)

text \<open>
  In the concrete workflow \<open>A\<close> and \<open>C\<close> run together and use the three cores; on a
  pool of one core the graph is rejected, since \<open>B\<close> asks for two.
\<close>

theorem resource_invariant_witness:
  "well_formed exG
   \<and> status (exTrace ! 3) (job_key exA) = Running
   \<and> status (exTrace ! 3) (job_key exC) = Running
   \<and> running_demand exG (exTrace ! 3) ''cores'' = 3
   \<and> running_demand exG (exTrace ! 3) ''cores'' \<le> amount [(''cores'', 3)] ''cores''
   \<and> Execute exCfg [(''cores'', 1)] exStale exG exEvents = Inl ResourceUnsatisfiable"
proof -
  have mem: "exTrace ! 3 \<in> set (Run_trace exCfg exG (initial [(''cores'', 3)] exStale) exEvents)"
    using exTrace_length nth_mem [of 3 exTrace] by (simp add: exTrace_def)
  have big: "exB \<in> set (jobs exG) \<and> amount [(''cores'', 1)] ''cores'' < amount (job_demand exB) ''cores''"
    by (simp add: exG_def exB_def amount_def)
  from resource_invariant [of exG exCfg "[(''cores'', 3)]" exStale exEvents] exG_well_formed mem
  have 1: "running_demand exG (exTrace ! 3) ''cores'' \<le> amount [(''cores'', 3)] ''cores''"
    by blast
  from resource_invariant [of exG exCfg "[(''cores'', 1)]" exStale exEvents exB "''cores''"] big
  have 2: "Execute exCfg [(''cores'', 1)] exStale exG exEvents = Inl ResourceUnsatisfiable"
    by blast
  from exG_well_formed exTrace_A_and_C_running 1 2 show ?thesis by blast
qed

text \<open>
  In the concrete workflow \<open>B\<close> turns to \<^verbatim>\<open>running\<close> at the last step, when \<open>A\<close> is
  completed (and \<open>C\<close> has given back its cores).
\<close>

theorem dependency_ordering_witness:
  "length exTrace = 10
   \<and> (job_key exA, job_key exB) \<in> set (edges exG)
   \<and> status (exTrace ! 8) (job_key exB) = Ready
   \<and> status (exTrace ! 9) (job_key exB) = Running
   \<and> status (exTrace ! 8) (job_key exA) = Completed
   \<and> status (exTrace ! 9) (job_key exA) = Completed"
proof -
  have i: "Suc 8 < length (Run_trace exCfg exG (initial [(''cores'', 3)] exStale) exEvents)"
    using exTrace_length by (simp add: exTrace_def)
  have pre: "status (Run_trace exCfg exG (initial [(''cores'', 3)] exStale) exEvents ! 8)
      (job_key exB) \<noteq> Running"
    using exTrace_B_starts(2) by (simp add: exTrace_def)
  have post: "status (Run_trace exCfg exG (initial [(''cores'', 3)] exStale) exEvents ! Suc 8)
      (job_key exB) = Running"
    using exTrace_B_starts(3) by (simp add: exTrace_def)
  from dependency_ordering [of exCfg exG "[(''cores'', 3)]" exStale exEvents] i exG_edge pre post
  have "status (Run_trace exCfg exG (initial [(''cores'', 3)] exStale) exEvents ! 8)
      (job_key exA) = Completed
    \<and> status (Run_trace exCfg exG (initial [(''cores'', 3)] exStale) exEvents ! Suc 8)
      (job_key exA) = Completed"
    by blast
  then have "status (exTrace ! 8) (job_key exA) = Completed
      \<and> status (exTrace ! 9) (job_key exA) = Completed"
    by (simp add: exTrace_def)
  with exTrace_length exG_edge exTrace_B_starts show ?thesis by blast
qed

end
